theory Spec2Isabelle
  imports Complex_Main
begin

section \<open>Strings of the host language\<close>

text \<open>
  Strings of the source are modelled as \<^typ>\<open>string\<close>; every \<^typ>\<open>char\<close> stands for one
  code unit below 256. \<open>isWhiteSpace\<close> is the white space that \<open>String.prototype.trim\<close>
  removes, restricted to these code units: TAB, LF, VT, FF, CR, SPACE and NBSP.
\<close>

definition isWhiteSpace :: "char \<Rightarrow> bool" where
  "isWhiteSpace c = (of_char c \<in> {9::nat, 10, 11, 12, 13, 32, 160})"

definition trim :: "string \<Rightarrow> string" where
  "trim s = rev (dropWhile isWhiteSpace (rev (dropWhile isWhiteSpace s)))"

definition startsWith :: "string \<Rightarrow> string \<Rightarrow> bool" where
  "startsWith p s = (take (length p) s = p)"

text \<open>\<open>s.indexOf(p) >= 0\<close>: the pattern occurs somewhere in the string.\<close>

fun includesStr :: "string \<Rightarrow> string \<Rightarrow> bool" where
  "includesStr p [] = (p = [])"
| "includesStr p (c # cs) = (startsWith p (c # cs) \<or> includesStr p cs)"

text \<open>
  \<open>s.replace(p, r)\<close> with a string pattern replaces the first occurrence only.
\<close>

fun replaceFirst :: "string \<Rightarrow> string \<Rightarrow> string \<Rightarrow> string" where
  "replaceFirst p r [] = (if p = [] then r else [])"
| "replaceFirst p r (c # cs) =
     (if startsWith p (c # cs) then r @ drop (length p) (c # cs)
      else c # replaceFirst p r cs)"

text \<open>
  \<open>s.split(/[..]/)\<close> for a character class: the string is cut at every character of the
  class, and empty pieces are kept.
\<close>

fun splitChars :: "(char \<Rightarrow> bool) \<Rightarrow> string \<Rightarrow> string list" where
  "splitChars P [] = [[]]"
| "splitChars P (c # cs) =
     (if P c then [] # splitChars P cs
      else (case splitChars P cs of
              [] \<Rightarrow> [[c]]
            | x # xs \<Rightarrow> (c # x) # xs))"

definition isBlank :: "char \<Rightarrow> bool" where
  "isBlank c = (c = CHR '' '' \<or> of_char c = (9::nat))"

text \<open>
  One attempt of the regular expression \<open>/[ \t]+-->[ \t]+/\<close> at the head of a string:
  a non-empty run of blanks, the arrow, a non-empty run of blanks, each run taken
  greedily. The result is what follows the match. Giving blanks back cannot help the
  match, since the arrow does not start with a blank.
\<close>

definition matchArrow :: "string \<Rightarrow> string option" where
  "matchArrow s =
     (let r1 = dropWhile isBlank s in
      if takeWhile isBlank s \<noteq> [] \<and> startsWith ''-->'' r1
         \<and> takeWhile isBlank (drop 3 r1) \<noteq> []
      then Some (dropWhile isBlank (drop 3 r1))
      else None)"

lemma matchArrow_shorter: "matchArrow s = Some r \<Longrightarrow> length r < length s"
proof -
  assume a: "matchArrow s = Some r"
  from a have r: "r = dropWhile isBlank (drop 3 (dropWhile isBlank s))"
    and ne: "takeWhile isBlank s \<noteq> []"
    by (auto simp: matchArrow_def Let_def split: if_splits)
  from ne have "length (dropWhile isBlank s) < length s"
    by (cases s) (auto simp: le_imp_less_Suc length_dropWhile_le split: if_splits)
  moreover have "length r \<le> length (dropWhile isBlank s)"
    unfolding r
    by (rule order_trans [OF length_dropWhile_le]) simp
  ultimately show ?thesis by simp
qed

text \<open>
  \<open>line.split(/[ \t]+-->[ \t]+/)\<close>: the separator is tried at every position from left
  to right; \<open>acc\<close> holds the piece read so far, reversed.
\<close>

function splitArrow :: "string \<Rightarrow> string \<Rightarrow> string list" where
  "splitArrow acc [] = [rev acc]"
| "splitArrow acc (c # cs) =
     (case matchArrow (c # cs) of
        Some r \<Rightarrow> rev acc # splitArrow [] r
      | None \<Rightarrow> splitArrow (c # acc) cs)"
  by pat_completeness auto
termination
  by (relation "measure (\<lambda>(acc, s). length s)")
     (auto dest: matchArrow_shorter)

section \<open>Cues\<close>

text \<open>
  A cue as the engine sees it (\<open>FilteredVTTCue\<close>): the three fields of the platform's
  cue and the classification that \<open>processCues\<close> adds. \<open>None\<close> in the last three fields
  is a property that has not been set. Times are seconds.
\<close>

record cue =
  startTime :: real
  endTime :: real
  text' :: string
  filtered :: "bool option"
  filteredText :: "string option"
  originalText :: "string option"

datatype error =
    SplitError string
  | MalformedTiming string
  | TypeError string

text \<open>
  The platform's constructor \<open>new VTTCue(start, end, text)\<close>. A \<open>null\<close> text is
  converted to the string \<open>null\<close>, as every value passed for a string argument is.
\<close>

definition VTTCue :: "real \<Rightarrow> real \<Rightarrow> string option \<Rightarrow> cue" where
  "VTTCue s e t =
     \<lparr> startTime = s, endTime = e,
       text' = (case t of None \<Rightarrow> ''null'' | Some x \<Rightarrow> x),
       filtered = None, filteredText = None, originalText = None \<rparr>"

text \<open>A timing argument of \<open>newCue\<close> is a string or already a number of seconds.\<close>

datatype timing = TString string | TNumber real

section \<open>The helper \<open>hmsToSeconds\<close>\<close>

text \<open>
  Modelled from the spec: \<open>hmsToSeconds\<close> of \<open>lib/helper\<close>, which \<open>newCue\<close> imports and
  which is not among the sources. The specification says of it: timing tokens are
  \<open>H:MM:SS.mmm\<close> strings, the conversion is exact to the millisecond, and a malformed
  timing throws. Its SubRip example writes the millisecond mark as a comma
  (\<open>00:00:01,000\<close> is one second), and \<open>parseSRT\<close> hands the token over unchanged, so
  both marks are read. The definitions of this section are the parts of this one helper.
\<close>

definition digitValue :: "char \<Rightarrow> nat option" where
  "digitValue c =
     (if 48 \<le> (of_char c :: nat) \<and> (of_char c :: nat) \<le> 57
      then Some (of_char c - 48) else None)"

fun digitsValue :: "nat \<Rightarrow> string \<Rightarrow> nat option" where
  "digitsValue acc [] = Some acc"
| "digitsValue acc (c # cs) =
     (case digitValue c of
        None \<Rightarrow> None
      | Some d \<Rightarrow> digitsValue (10 * acc + d) cs)"

text \<open>A field of decimal digits, at least one.\<close>

definition decimal :: "string \<Rightarrow> nat option" where
  "decimal s = (if s = [] then None else digitsValue 0 s)"

definition isFractionMark :: "char \<Rightarrow> bool" where
  "isFractionMark c = (c = CHR ''.'' \<or> c = CHR '','')"

text \<open>
  The seconds field in milliseconds: whole seconds, then optionally a fraction mark and
  one to three digits.
\<close>

definition secondsField :: "string \<Rightarrow> nat option" where
  "secondsField s =
     (let w = takeWhile (\<lambda>c. \<not> isFractionMark c) s;
          r = dropWhile (\<lambda>c. \<not> isFractionMark c) s
      in case decimal w of
           None \<Rightarrow> None
         | Some n \<Rightarrow>
             (if r = [] then Some (1000 * n)
              else if 3 < length (tl r) then None
              else (case decimal (tl r) of
                      None \<Rightarrow> None
                    | Some f \<Rightarrow> Some (1000 * n + f * 10 ^ (3 - length (tl r))))))"

text \<open>
  Modelled from the spec: the conversion itself. Hours, minutes and seconds are
  separated by colons; the result is in seconds; any other token is malformed.
\<close>

definition hmsToSeconds :: "string \<Rightarrow> error + real" where
  "hmsToSeconds t =
     (case splitChars (\<lambda>c. c = CHR '':'') t of
        [h, m, s] \<Rightarrow>
          (case (decimal h, decimal m, secondsField s) of
             (Some hh, Some mm, Some ms) \<Rightarrow>
               Inr (real (3600000 * hh + 60000 * mm + ms) / 1000)
           | _ \<Rightarrow> Inl (MalformedTiming t))
      | _ \<Rightarrow> Inl (MalformedTiming t))"

section \<open>Subtitle parsers\<close>

text \<open>
  \<open>newCue(start, end, text)\<close> as the SubRip parser calls it: the options are the empty
  default, so none of the three option branches runs. The time conversion \<open>hms\<close> is a
  parameter. Whatever is thrown inside is caught and logged, and the function then
  returns nothing: \<open>None\<close> is the \<open>undefined\<close> the caller receives.
\<close>

definition toSeconds :: "(string \<Rightarrow> error + real) \<Rightarrow> timing \<Rightarrow> error + real" where
  "toSeconds hms t = (case t of TString s \<Rightarrow> hms s | TNumber x \<Rightarrow> Inr x)"

definition newCue ::
  "(string \<Rightarrow> error + real) \<Rightarrow> timing \<Rightarrow> timing \<Rightarrow> string option \<Rightarrow> cue option" where
  "newCue hms start end' ctext =
     (case toSeconds hms start of
        Inl err \<Rightarrow> None
      | Inr startSeconds \<Rightarrow>
          (case toSeconds hms end' of
             Inl err \<Rightarrow> None
           | Inr endSeconds \<Rightarrow> Some (VTTCue startSeconds endSeconds ctext)))"

text \<open>A string or \<open>null\<close> used as a condition: \<open>null\<close> and the empty string are false.\<close>

definition truthy :: "string option \<Rightarrow> bool" where
  "truthy v = (case v of None \<Rightarrow> False | Some s \<Rightarrow> s \<noteq> [])"

record srtState =
  start :: "string option"
  end' :: "string option"
  ctext :: "string option"
  cues :: "cue option list"

definition pushCue :: "(string \<Rightarrow> error + real) \<Rightarrow> srtState \<Rightarrow> cue option list" where
  "pushCue hms st =
     cues st @ [newCue hms (TString (the (start st))) (TString (the (end' st))) (ctext st)]"

text \<open>
  The body of the loop of \<open>parseSRT\<close> for one line. \<open>pushCue\<close> is only reached where
  \<open>start\<close> and \<open>end\<close> are truthy, so both are strings there.
\<close>

definition srtLine :: "(string \<Rightarrow> error + real) \<Rightarrow> srtState \<Rightarrow> string \<Rightarrow> error + srtState" where
  "srtLine hms st line =
     (if includesStr ''-->'' line then
        (case splitArrow [] line of
           [a, b] \<Rightarrow> Inr (st\<lparr> start := Some a, end' := Some b \<rparr>)
         | _ \<Rightarrow> Inl (SplitError line))
      else if line = [] then
        (if truthy (start st) \<and> truthy (end' st)
         then Inr (st\<lparr> cues := pushCue hms st, start := None, end' := None, ctext := None \<rparr>)
         else Inr st)
      else if truthy (start st) \<and> truthy (end' st) then
        (case ctext st of
           None \<Rightarrow> Inr (st\<lparr> ctext := Some line \<rparr>)
         | Some t \<Rightarrow> Inr (st\<lparr> ctext := Some (t @ [CHR 0x0A] @ line) \<rparr>))
      else Inr st)"

fun srtLoop :: "(string \<Rightarrow> error + real) \<Rightarrow> srtState \<Rightarrow> string list \<Rightarrow> error + srtState" where
  "srtLoop hms st [] = Inr st"
| "srtLoop hms st (l # ls) =
     (case srtLine hms st l of
        Inl err \<Rightarrow> Inl err
      | Inr st' \<Rightarrow> srtLoop hms st' ls)"

definition isLineBreak :: "char \<Rightarrow> bool" where
  "isLineBreak c = (of_char c = (13::nat) \<or> of_char c = (10::nat))"

definition srtLines :: "string \<Rightarrow> string list" where
  "srtLines srt =
     map trim (splitChars isLineBreak (replaceFirst [CHR 0x0D, CHR 0x0A] [CHR 0x0A] (trim srt)))"

text \<open>
  \<open>parseSRT\<close>. The result is the error thrown at a line that does not split in two at
  the arrow, or the array of whatever \<open>newCue\<close> returned for each block.
\<close>

definition parseSRT :: "(string \<Rightarrow> error + real) \<Rightarrow> string \<Rightarrow> error + cue option list" where
  "parseSRT hms srt =
     (case srtLoop hms \<lparr> start = None, end' = None, ctext = None, cues = [] \<rparr> (srtLines srt) of
        Inl err \<Rightarrow> Inl err
      | Inr st \<Rightarrow>
          (if truthy (start st) \<and> truthy (end' st) then Inr (pushCue hms st)
           else Inr (cues st)))"

text \<open>
  The blocks of a SubRip text: what the loop of \<open>parseSRT\<close> hands to \<open>newCue\<close>, block
  by block, before any cue is constructed. It is the same loop with the three arguments
  of each call collected in place of the result of the call, so it does not depend on
  how times are converted.
\<close>

record blockState =
  bStart :: "string option"
  bEnd :: "string option"
  bText :: "string option"
  blocks :: "(string \<times> string \<times> string option) list"

definition pushBlock :: "blockState \<Rightarrow> (string \<times> string \<times> string option) list" where
  "pushBlock st = blocks st @ [(the (bStart st), the (bEnd st), bText st)]"

definition blockLine :: "blockState \<Rightarrow> string \<Rightarrow> error + blockState" where
  "blockLine st line =
     (if includesStr ''-->'' line then
        (case splitArrow [] line of
           [a, b] \<Rightarrow> Inr (st\<lparr> bStart := Some a, bEnd := Some b \<rparr>)
         | _ \<Rightarrow> Inl (SplitError line))
      else if line = [] then
        (if truthy (bStart st) \<and> truthy (bEnd st)
         then Inr (st\<lparr> blocks := pushBlock st, bStart := None, bEnd := None, bText := None \<rparr>)
         else Inr st)
      else if truthy (bStart st) \<and> truthy (bEnd st) then
        (case bText st of
           None \<Rightarrow> Inr (st\<lparr> bText := Some line \<rparr>)
         | Some t \<Rightarrow> Inr (st\<lparr> bText := Some (t @ [CHR 0x0A] @ line) \<rparr>))
      else Inr st)"

fun blockLoop :: "blockState \<Rightarrow> string list \<Rightarrow> error + blockState" where
  "blockLoop st [] = Inr st"
| "blockLoop st (l # ls) =
     (case blockLine st l of
        Inl err \<Rightarrow> Inl err
      | Inr st' \<Rightarrow> blockLoop st' ls)"

definition srtBlocks :: "string \<Rightarrow> error + (string \<times> string \<times> string option) list" where
  "srtBlocks srt =
     (case blockLoop \<lparr> bStart = None, bEnd = None, bText = None, blocks = [] \<rparr> (srtLines srt) of
        Inl err \<Rightarrow> Inl err
      | Inr st \<Rightarrow>
          (if truthy (bStart st) \<and> truthy (bEnd st) then Inr (pushBlock st)
           else Inr (blocks st)))"



section \<open>Rules and the engine state\<close>

text \<open>
  \<open>AudioRule\<close>, with the fields the modelled functions read or write. An optional field
  is an \<open>option\<close>; \<open>None\<close> is a field that is absent (\<open>undefined\<close>).
\<close>

record AudioRule =
  dynamic' :: "bool option"
  apfCaptions :: "bool option"
  apfCuesLabel :: "string option"
  checkInterval :: "int option"
  className :: "string option"
  containsSelector :: "string option"
  dataPropPresent :: "string option"
  disabled :: "bool option"
  displayHide :: "string option"
  displaySelector :: "string option"
  displayShow :: "string option"
  dynamicTargetMode :: "string option"
  dynamicTextKey :: "string option"
  externalSub :: "bool option"
  externalSubFormatKey :: "string option"
  externalSubTrackLabel :: "string option"
  externalSubTrackMode :: "string option"
  externalSubURLKey :: "string option"
  filterSubtitles :: "bool option"
  hasChildrenElements :: "bool option"
  iframe :: "bool option"
  ignoreMutations :: "bool option"
  mode :: "string option"
  muteMethod :: "int option"
  parentSelector :: "string option"
  parentSelectorAll :: "string option"
  rootNode :: "bool option"
  showSubtitles :: "int option"
  simpleUnmute :: "bool option"
  subtitleSelector :: "string option"
  tagName :: "string option"
  toCue :: "bool option"
  unmuteDelay :: "int option"
  videoCueHideCues :: "bool option"
  videoCueKind :: "string option"
  videoCueLabel :: "string option"
  videoCueLanguage :: "string option"
  videoCueRequireShowing :: "bool option"
  videoCueSync :: "real option"
  videoSelector :: "string option"

text \<open>
  Conditions of the host language: a boolean field holds when it is \<open>true\<close>, a string
  field when it is a non-empty string, a number field when it is a number other than
  zero.
\<close>

definition isTrue :: "bool option \<Rightarrow> bool" where
  "isTrue v = (v = Some True)"

definition nonZero :: "int option \<Rightarrow> bool" where
  "nonZero v = (case v of None \<Rightarrow> False | Some n \<Rightarrow> n \<noteq> 0)"

text \<open>
  The constants \<open>Constants.MUTE_METHODS\<close> are not among the sources; they are fields of
  the engine state, so every statement holds for whatever values they have.
\<close>

record muteMethods =
  TAB :: int
  VIDEO_MUTE :: int
  VIDEO_VOLUME :: int

text \<open>What the engine reads of a video element, and the filler audio element.\<close>

record video =
  vMuted :: bool
  vVolume :: "real option"
  currentTime :: real
  paused :: bool
  ended :: bool
  readyState :: nat
  fillerListeners :: bool

record audio =
  aPaused :: bool
  aCurrentTime :: real

text \<open>
  A pending timer of \<open>window.setTimeout\<close>: its handle, its delay, and the rule that
  \<open>delayedUnmute\<close> will receive.
\<close>

record timer =
  handle :: nat
  delay :: int
  timerRule :: AudioRule

text \<open>A call that leaves the page: a message to the background, or a periodic task.\<close>

datatype call =
    SendMute bool
  | SendCaptionsStatus bool bool
  | SetInterval string "int option" int

text \<open>
  The engine state: the fields of the \<open>WebAudio\<close> instance, what it reads of its filter
  and its configuration, and the part of the page it acts on (video elements by
  reference, pending timers, calls made). \<open>getElement\<close> of \<open>lib/helper\<close> is not among the
  sources and is a field: it maps a selector to the reference of the element found.
  \<open>windowUnmuteTimeout\<close> is the property of the global object that \<open>delayedUnmute\<close>
  writes when the timer runs it.
\<close>

record engine =
  rules :: "AudioRule list"
  apfCaptionRuleIds :: "int list"
  cueRuleIds :: "int list"
  enabledRuleIds :: "int list"
  watcherRuleIds :: "int list"
  fillerAudio :: "audio option"
  muted :: bool
  supportedCaptions :: bool
  unmuteTimeout :: "nat option"
  volume :: real
  collectStats :: bool
  statsMutes :: nat
  cfgMuteMethod :: int
  cfgShowSubtitles :: int
  muteCueRequireShowing :: bool
  filterIframe :: bool
  filterText :: bool
  extension :: bool
  MUTE_METHODS :: muteMethods
  getElement :: "string option \<Rightarrow> nat option"
  videos :: "nat \<Rightarrow> video"
  timers :: "timer list"
  lastHandle :: nat
  windowUnmuteTimeout :: "nat option"
  calls :: "call list"

section \<open>Timers of the page\<close>

text \<open>
  \<open>window.setTimeout\<close> returns a new handle, greater than zero, and the timer is
  pending until it runs or is cleared. \<open>clearTimeout\<close> removes the timer with that
  handle, if there is one.
\<close>

definition setTimeout :: "AudioRule \<Rightarrow> int \<Rightarrow> engine \<Rightarrow> nat \<times> engine" where
  "setTimeout rule d s =
     (let h = Suc (lastHandle s)
      in (h, s\<lparr> lastHandle := h,
                 timers := timers s @ [\<lparr> handle = h, delay = d, timerRule = rule \<rparr>] \<rparr>))"

definition clearTimeout :: "nat \<Rightarrow> engine \<Rightarrow> engine" where
  "clearTimeout h s = s\<lparr> timers := filter (\<lambda>t. handle t \<noteq> h) (timers s) \<rparr>"

section \<open>The mute controller\<close>

definition clearUnmuteTimeout :: "AudioRule \<Rightarrow> engine \<Rightarrow> engine" where
  "clearUnmuteTimeout rule s =
     (case unmuteTimeout s of
        Some h \<Rightarrow>
          (if nonZero (unmuteDelay rule)
           then (clearTimeout h s)\<lparr> unmuteTimeout := None \<rparr>
           else s)
      | None \<Rightarrow> s)"

definition playing :: "video option \<Rightarrow> bool" where
  "playing v =
     (case v of
        None \<Rightarrow> False
      | Some x \<Rightarrow> 0 < currentTime x \<and> \<not> paused x \<and> \<not> ended x \<and> 2 < readyState x)"

definition videoAt :: "engine \<Rightarrow> nat option \<Rightarrow> video option" where
  "videoAt s r = map_option (videos s) r"

definition playFillerAudio :: "nat option \<Rightarrow> engine \<Rightarrow> engine" where
  "playFillerAudio v s =
     (if playing (videoAt s v) then
        s\<lparr> fillerAudio := map_option (\<lambda>a. a\<lparr> aPaused := False \<rparr>) (fillerAudio s),
           videos := (videos s)(the v := (videos s (the v))\<lparr> fillerListeners := True \<rparr>) \<rparr>
      else s)"

definition stopFillerAudio :: "engine \<Rightarrow> engine" where
  "stopFillerAudio s =
     s\<lparr> fillerAudio := map_option (\<lambda>a. a\<lparr> aPaused := True, aCurrentTime := 0 \<rparr>) (fillerAudio s) \<rparr>"

text \<open>The video the effector works on: the argument, or else the rule's video.\<close>

definition videoOr :: "nat option \<Rightarrow> AudioRule \<Rightarrow> engine \<Rightarrow> nat option" where
  "videoOr v rule s = (case v of Some x \<Rightarrow> Some x | None \<Rightarrow> getElement s (videoSelector rule))"

text \<open>
  The three effectors of \<open>mute\<close>, chosen by the \<open>switch\<close> on \<open>rule.muteMethod\<close>; a method
  that is none of the three constants runs no effector.
\<close>

definition muteEffector :: "AudioRule \<Rightarrow> nat option \<Rightarrow> engine \<Rightarrow> engine" where
  "muteEffector rule v s =
     (if muteMethod rule = Some (TAB (MUTE_METHODS s)) then
        s\<lparr> calls := calls s @ [SendMute True] \<rparr>
      else if muteMethod rule = Some (VIDEO_MUTE (MUTE_METHODS s)) then
        (let v' = videoOr v rule s;
             s1 = (case v' of
                     None \<Rightarrow> s
                   | Some x \<Rightarrow>
                       (if \<not> vMuted (videos s x)
                        then s\<lparr> videos := (videos s)(x := (videos s x)\<lparr> vMuted := True \<rparr>) \<rparr>
                        else s))
         in if fillerAudio s1 \<noteq> None then playFillerAudio v' s1 else s1)
      else if muteMethod rule = Some (VIDEO_VOLUME (MUTE_METHODS s)) then
        (let v' = videoOr v rule s;
             s1 = (case v' of
                     None \<Rightarrow> s
                   | Some x \<Rightarrow>
                       (case vVolume (videos s x) of
                          None \<Rightarrow> s
                        | Some vol \<Rightarrow>
                            s\<lparr> volume := vol,
                               videos := (videos s)(x := (videos s x)\<lparr> vVolume := Some 0 \<rparr>) \<rparr>))
         in if fillerAudio s1 \<noteq> None then playFillerAudio v' s1 else s1)
      else s)"

text \<open>
  \<open>mute(rule, video)\<close>. The rule is always passed by the callers, so the tests
  \<open>rule &&\<close> hold. A handle is a number greater than zero, so \<open>this.unmuteTimeout\<close> as a
  condition holds exactly when a handle is stored.
\<close>

definition mute :: "AudioRule \<Rightarrow> nat option \<Rightarrow> engine \<Rightarrow> engine" where
  "mute rule v s =
     (let s1 = (if \<not> muted s
                then muteEffector rule v
                       (s\<lparr> muted := True,
                           statsMutes := (if collectStats s then Suc (statsMutes s)
                                          else statsMutes s) \<rparr>)
                else s)
      in if nonZero (unmuteDelay rule) \<and> unmuteTimeout s1 \<noteq> None \<and> unmuteTimeout s1 \<noteq> Some 0
         then clearUnmuteTimeout rule s1
         else s1)"

definition unmuteEffector :: "AudioRule \<Rightarrow> nat option \<Rightarrow> engine \<Rightarrow> engine" where
  "unmuteEffector rule v s =
     (if muteMethod rule = Some (TAB (MUTE_METHODS s)) then
        s\<lparr> calls := calls s @ [SendMute False] \<rparr>
      else if muteMethod rule = Some (VIDEO_MUTE (MUTE_METHODS s)) then
        (let s1 = (if fillerAudio s \<noteq> None then stopFillerAudio s else s)
         in case videoOr v rule s1 of
              None \<Rightarrow> s1
            | Some x \<Rightarrow>
                (if vMuted (videos s1 x)
                 then s1\<lparr> videos := (videos s1)(x := (videos s1 x)\<lparr> vMuted := False \<rparr>) \<rparr>
                 else s1))
      else if muteMethod rule = Some (VIDEO_VOLUME (MUTE_METHODS s)) then
        (let s1 = (if fillerAudio s \<noteq> None then stopFillerAudio s else s)
         in case videoOr v rule s1 of
              None \<Rightarrow> s1
            | Some x \<Rightarrow>
                (if vVolume (videos s1 x) \<noteq> None
                 then s1\<lparr> videos := (videos s1)(x := (videos s1 x)\<lparr> vVolume := Some (volume s1) \<rparr>) \<rparr>
                 else s1))
      else s)"

text \<open>
  \<open>unmute(rule, video, delayed)\<close>. With a delay of zero or more and \<open>delayed\<close> false it
  only sets a timer and returns. Before that it calls \<open>clearUnmuteTimeout\<close> when no
  handle is stored.
\<close>

definition unmute :: "AudioRule \<Rightarrow> nat option \<Rightarrow> bool \<Rightarrow> engine \<Rightarrow> engine" where
  "unmute rule v delayed s =
     (if muted s then
        (case unmuteDelay rule of
           Some d \<Rightarrow>
             (if \<not> delayed \<and> 0 \<le> d then
                (let s1 = (if unmuteTimeout s = None then clearUnmuteTimeout rule s else s);
                     (h, s2) = setTimeout rule d s1
                 in s2\<lparr> unmuteTimeout := Some h \<rparr>)
              else unmuteEffector rule v (s\<lparr> muted := False \<rparr>))
         | None \<Rightarrow> unmuteEffector rule v (s\<lparr> muted := False \<rparr>))
      else s)"

text \<open>
  \<open>delayedUnmute(instance, rule)\<close> is handed to \<open>setTimeout\<close> as a plain function, so
  when the timer runs it \<open>this\<close> is the global object: the final assignment writes
  the global's property and leaves the engine's \<open>unmuteTimeout\<close> as it is.
\<close>

definition delayedUnmute :: "AudioRule \<Rightarrow> engine \<Rightarrow> engine" where
  "delayedUnmute rule s = (unmute rule None True s)\<lparr> windowUnmuteTimeout := None \<rparr>"

text \<open>
  A pending timer runs: it stops being pending and its callback is called. A handle
  that is not pending runs nothing.
\<close>

definition expire :: "nat \<Rightarrow> engine \<Rightarrow> engine" where
  "expire h s =
     (case find (\<lambda>t. handle t = h) (timers s) of
        None \<Rightarrow> s
      | Some t \<Rightarrow> delayedUnmute (timerRule t) (clearTimeout h s))"

section \<open>Rule initialisation\<close>

text \<open>
  \<open>toUpperCase\<close> on the code units below 256. The letters a to z and the accented
  letters 0xE0 to 0xFE (0xF7 is the division sign) go to their capitals, 32 below; the
  sharp s 0xDF becomes \<open>SS\<close>. The capitals of the micro sign 0xB5 and of the y with
  diaeresis 0xFF lie above 255, outside the code units of the model: these two are left
  as they are.
\<close>

definition upperOf :: "char \<Rightarrow> string" where
  "upperOf c =
     (case map_of (zip ''abcdefghijklmnopqrstuvwxyz'' ''ABCDEFGHIJKLMNOPQRSTUVWXYZ'') c of
        Some u \<Rightarrow> [u]
      | None \<Rightarrow>
          (if (of_char c :: nat) = 223 then ''SS''
           else if 224 \<le> (of_char c :: nat) \<and> (of_char c :: nat) \<le> 254
                   \<and> (of_char c :: nat) \<noteq> 247
           then [char_of ((of_char c :: nat) - 32)]
           else [c]))"

definition toUpperCase :: "string \<Rightarrow> string" where
  "toUpperCase s = concat (map upperOf s)"

definition orDefault :: "'a option \<Rightarrow> 'a \<Rightarrow> 'a option" where
  "orDefault v d = (case v of None \<Rightarrow> Some d | Some x \<Rightarrow> Some x)"

definition initCueRule :: "engine \<Rightarrow> AudioRule \<Rightarrow> AudioRule" where
  "initCueRule s rule =
     (let r1 = (if apfCaptions rule = Some True then rule\<lparr> videoCueHideCues := Some True \<rparr>
                else rule);
          r2 = r1\<lparr> videoCueRequireShowing :=
                     orDefault (videoCueRequireShowing r1) (muteCueRequireShowing s) \<rparr>
      in if isTrue (externalSub r2) then
           r2\<lparr> externalSubTrackMode := orDefault (externalSubTrackMode r2) ''showing'',
                externalSubURLKey := orDefault (externalSubURLKey r2) ''url'',
                externalSubFormatKey := orDefault (externalSubFormatKey r2) ''format'',
                externalSubTrackLabel := orDefault (externalSubTrackLabel r2) ''APF'' \<rparr>
         else r2)"

definition initDisplaySelector :: "AudioRule \<Rightarrow> AudioRule" where
  "initDisplaySelector rule =
     (if displaySelector rule \<noteq> None then
        rule\<lparr> displayHide := orDefault (displayHide rule) ''none'',
               displayShow := orDefault (displayShow rule) [] \<rparr>
      else rule)"

text \<open>
  \<open>initDynamicRule\<close>. Its second statement, \<open>rule.disabled == true\<close>, is a comparison
  whose value is thrown away: nothing is assigned, whatever \<open>dynamicTargetMode\<close> is.
\<close>

definition initDynamicRule :: "AudioRule \<Rightarrow> AudioRule" where
  "initDynamicRule rule =
     (let r1 = rule\<lparr> dynamic' := Some True \<rparr>
      in if dynamicTargetMode r1 = None then r1 else r1)"

definition initElementChildRule :: "AudioRule \<Rightarrow> AudioRule" where
  "initElementChildRule rule =
     (let r1 = (if \<not> truthy (parentSelector rule) \<and> \<not> truthy (parentSelectorAll rule)
                then rule\<lparr> disabled := Some True \<rparr> else rule)
      in if isTrue (apfCaptions r1) \<and> displaySelector r1 = None
         then r1\<lparr> disabled := Some True \<rparr> else r1)"

definition initElementRule :: "AudioRule \<Rightarrow> AudioRule" where
  "initElementRule rule =
     (if isTrue (apfCaptions rule) \<and> displaySelector rule = None
      then rule\<lparr> disabled := Some True \<rparr> else rule)"

definition initTextRule :: "AudioRule \<Rightarrow> AudioRule" where
  "initTextRule rule =
     rule\<lparr> tagName := Some ''#text'', simpleUnmute := orDefault (simpleUnmute rule) True \<rparr>"

definition initWatcherRule :: "AudioRule \<Rightarrow> AudioRule" where
  "initWatcherRule rule =
     rule\<lparr> apfCuesLabel := orDefault (apfCuesLabel rule) ''APF-Cues'',
            checkInterval := orDefault (checkInterval rule) 20,
            ignoreMutations := orDefault (ignoreMutations rule) True,
            simpleUnmute := orDefault (simpleUnmute rule) True \<rparr>"

text \<open>The first test of \<open>initRule\<close>: the rule cannot run on this page.\<close>

definition inapplicable :: "engine \<Rightarrow> AudioRule \<Rightarrow> bool" where
  "inapplicable s rule =
     (mode rule = None
      \<or> ((mode rule = Some ''element'' \<or> mode rule = Some ''elementChild'')
          \<and> \<not> truthy (tagName rule))
      \<or> (iframe rule = Some True \<and> \<not> filterIframe s)
      \<or> (iframe rule = Some False \<and> filterIframe s))"

text \<open>The defaults that \<open>initRule\<close> sets before it looks at the mode.\<close>

definition ruleDefaults :: "engine \<Rightarrow> AudioRule \<Rightarrow> AudioRule" where
  "ruleDefaults s rule =
     (let r1 = rule\<lparr> filterSubtitles := orDefault (filterSubtitles rule) True \<rparr>;
          r2 = (if \<not> filterText s then r1\<lparr> filterSubtitles := Some False \<rparr> else r1);
          r3 = r2\<lparr> videoSelector := orDefault (videoSelector r2) ''video'' \<rparr>;
          r4 = initDisplaySelector r3;
          r5 = r4\<lparr> muteMethod := orDefault (muteMethod r4) (cfgMuteMethod s),
                    showSubtitles := orDefault (showSubtitles r4) (cfgShowSubtitles s) \<rparr>
      in case tagName r5 of
           None \<Rightarrow> r5
         | Some t \<Rightarrow> (if t \<noteq> ''#text'' then r5\<lparr> tagName := Some (toUpperCase t) \<rparr> else r5))"

definition isDisabled :: "AudioRule \<Rightarrow> bool" where
  "isDisabled rule = isTrue (disabled rule)"

text \<open>
  The \<open>switch\<close> on the mode. A mode that is none of the seven leaves rule and engine as
  they are.
\<close>

definition initMode :: "int \<Rightarrow> AudioRule \<Rightarrow> engine \<Rightarrow> AudioRule \<times> engine" where
  "initMode ruleId rule s =
     (if mode rule = Some ''cue'' then
        (let r = initCueRule s rule
         in (r, if \<not> isDisabled r then s\<lparr> cueRuleIds := cueRuleIds s @ [ruleId] \<rparr> else s))
      else if mode rule = Some ''dynamic'' then (initDynamicRule rule, s)
      else if mode rule = Some ''elementChild'' then (initElementChildRule rule, s)
      else if mode rule = Some ''element'' then (initElementRule rule, s)
      else if mode rule = Some ''text'' then (initTextRule rule, s)
      else if mode rule = Some ''watcher'' then
        (let r = initWatcherRule rule
         in (r, if \<not> isDisabled r then s\<lparr> watcherRuleIds := watcherRuleIds s @ [ruleId] \<rparr>
                else s))
      else if mode rule = Some ''ytauto'' then (rule\<lparr> disabled := Some True \<rparr>, s)
      else (rule, s))"

text \<open>What \<open>initRule\<close> does with a rule that came out of the \<open>switch\<close> enabled.\<close>

definition enableRule :: "int \<Rightarrow> AudioRule \<Rightarrow> engine \<Rightarrow> engine" where
  "enableRule ruleId rule s =
     (let s1 = s\<lparr> enabledRuleIds := enabledRuleIds s @ [ruleId] \<rparr>;
          s2 = (if isTrue (apfCaptions rule)
                then s1\<lparr> apfCaptionRuleIds := apfCaptionRuleIds s1 @ [ruleId] \<rparr> else s1)
      in if mode rule = Some ''watcher'' then
           s2\<lparr> calls := calls s2 @
                  [SetInterval (if isTrue (toCue rule) then ''watcherToCue'' else ''watcher'')
                     (checkInterval rule) ruleId] \<rparr>
         else s2)"

text \<open>
  \<open>initRule(rule)\<close>. The rule is an object changed in place; the model takes it with
  \<open>ruleId\<close>, its position in \<open>this.rules\<close> (\<open>-1\<close> if it is not there), and returns it
  changed, with the engine.
\<close>

definition initRule :: "int \<Rightarrow> AudioRule \<Rightarrow> engine \<Rightarrow> AudioRule \<times> engine" where
  "initRule ruleId rule s =
     (let r1 = (if inapplicable s rule then rule\<lparr> disabled := Some True \<rparr> else rule)
      in if isDisabled r1 then (r1, s)
         else (let (r2, s1) = initMode ruleId (ruleDefaults s r1) s
               in if isDisabled r2 then (r2, s1)
                  else (r2, enableRule ruleId r2 s1)))"

text \<open>
  The rule at a position of \<open>this.rules\<close> is initialised, and the loop of the
  constructor, which does so for every rule of the site in turn.
\<close>

definition initRuleAt :: "nat \<Rightarrow> engine \<Rightarrow> engine" where
  "initRuleAt i s =
     (let (r, s1) = initRule (int i) (rules s ! i) s
      in s1\<lparr> rules := (rules s1)[i := r] \<rparr>)"

definition initRules :: "engine \<Rightarrow> engine" where
  "initRules s = fold initRuleAt [0 ..< length (rules s)] s"

text \<open>
  Two conditions on a position of \<open>this.rules\<close> during the loop: the rule there is
  disabled and not among the enabled rules, or it will be once it is initialised.
\<close>

definition settled :: "nat \<Rightarrow> engine \<Rightarrow> bool" where
  "settled i s =
     (i < length (rules s) \<and> isDisabled (rules s ! i) \<and> int i \<notin> set (enabledRuleIds s))"

definition toSettle :: "nat \<Rightarrow> engine \<Rightarrow> bool" where
  "toSettle i s =
     (i < length (rules s) \<and> (inapplicable s (rules s ! i) \<or> isDisabled (rules s ! i))
      \<and> int i \<notin> set (enabledRuleIds s))"

section \<open>Choosing the text track of a video\<close>

text \<open>
  A text track as \<open>getVideoTextTrack\<close> reads it. \<open>trackCues\<close> is \<open>None\<close> where the track
  has no list of cues.
\<close>

record textTrack =
  trackKind :: string
  trackLabel :: string
  trackLanguage :: string
  trackMode :: string
  trackCues :: "cue list option"

text \<open>
  The keys of \<open>textTrackRuleMappings\<close>, which are the rule fields that can be compared
  with a property of a track, and the properties they are mapped to. The override key of
  \<open>getVideoTextTrack\<close> is one of these keys or absent: its callers pass
  \<open>externalSubTrackLabel\<close> or nothing.
\<close>

datatype ruleKey = ExternalSubTrackLabel | VideoCueKind | VideoCueLabel | VideoCueLanguage

datatype trackKey = Kind | Label | Language

fun textTrackRuleMappings :: "ruleKey \<Rightarrow> trackKey" where
  "textTrackRuleMappings ExternalSubTrackLabel = Label"
| "textTrackRuleMappings VideoCueKind = Kind"
| "textTrackRuleMappings VideoCueLabel = Label"
| "textTrackRuleMappings VideoCueLanguage = Language"

fun ruleValue :: "AudioRule \<Rightarrow> ruleKey \<Rightarrow> string option" where
  "ruleValue rule ExternalSubTrackLabel = externalSubTrackLabel rule"
| "ruleValue rule VideoCueKind = videoCueKind rule"
| "ruleValue rule VideoCueLabel = videoCueLabel rule"
| "ruleValue rule VideoCueLanguage = videoCueLanguage rule"

fun trackValue :: "textTrack \<Rightarrow> trackKey \<Rightarrow> string" where
  "trackValue t Kind = trackKind t"
| "trackValue t Label = trackLabel t"
| "trackValue t Language = trackLanguage t"

definition textTrackKeyTest :: "textTrack \<Rightarrow> trackKey \<Rightarrow> string \<Rightarrow> bool" where
  "textTrackKeyTest t key v = (trackValue t key \<noteq> [] \<and> v \<noteq> [] \<and> trackValue t key = v)"

text \<open>The override key is given and the rule has a value for it.\<close>

definition overrides :: "AudioRule \<Rightarrow> ruleKey option \<Rightarrow> bool" where
  "overrides rule overrideKey =
     (case overrideKey of None \<Rightarrow> False | Some k \<Rightarrow> truthy (ruleValue rule k))"

definition perfectScore :: "AudioRule \<Rightarrow> ruleKey option \<Rightarrow> nat" where
  "perfectScore rule overrideKey =
     (if overrides rule overrideKey then 1000 else 0)
     + (if truthy (videoCueLabel rule) then 100 else 0)
     + (if truthy (videoCueLanguage rule) then 10 else 0)
     + (if truthy (videoCueKind rule) then 1 else 0)"

definition currentScore :: "AudioRule \<Rightarrow> ruleKey option \<Rightarrow> textTrack \<Rightarrow> nat" where
  "currentScore rule overrideKey t =
     (if overrides rule overrideKey
         \<and> textTrackKeyTest t (textTrackRuleMappings (the overrideKey))
              (the (ruleValue rule (the overrideKey)))
      then 1000 else 0)
     + (if truthy (videoCueLabel rule)
           \<and> textTrackKeyTest t (textTrackRuleMappings VideoCueLabel) (the (videoCueLabel rule))
        then 100 else 0)
     + (if truthy (videoCueLanguage rule)
           \<and> textTrackKeyTest t (textTrackRuleMappings VideoCueLanguage)
                (the (videoCueLanguage rule))
        then 10 else 0)
     + (if truthy (videoCueKind rule) then
          (if textTrackKeyTest t (textTrackRuleMappings VideoCueKind) (the (videoCueKind rule))
           then 1 else 0)
        else
          (if textTrackKeyTest t (textTrackRuleMappings VideoCueKind) ''captions''
              \<or> textTrackKeyTest t (textTrackRuleMappings VideoCueKind) ''subtitles''
           then 1 else 0))"

text \<open>
  The two tests at the head of the loop: a track is looked at only if it has cues and,
  where the rule requires it, is showing.
\<close>

definition considered :: "AudioRule \<Rightarrow> textTrack \<Rightarrow> bool" where
  "considered rule t =
     (\<not> (case trackCues t of None \<Rightarrow> True | Some cs \<Rightarrow> cs = [])
      \<and> \<not> (isTrue (videoCueRequireShowing rule) \<and> trackMode t \<noteq> ''showing''))"

record scan =
  bestIndex :: nat
  bestScore :: nat
  foundCues :: bool

text \<open>
  The loop of \<open>getVideoTextTrack\<close> from position \<open>i\<close> on, over the tracks not yet
  scanned, and what follows the loop. The result is the position of the track returned,
  \<open>None\<close> where nothing is returned.
\<close>

fun scanTracks :: "AudioRule \<Rightarrow> ruleKey option \<Rightarrow> textTrack list \<Rightarrow> nat \<Rightarrow> scan \<Rightarrow> nat option" where
  "scanTracks rule overrideKey [] i st = (if foundCues st then Some (bestIndex st) else None)"
| "scanTracks rule overrideKey (t # ts) i st =
     (if \<not> considered rule t then scanTracks rule overrideKey ts (Suc i) st
      else if currentScore rule overrideKey t = perfectScore rule overrideKey then Some i
      else if bestScore st < currentScore rule overrideKey t \<or> \<not> foundCues st then
        scanTracks rule overrideKey ts (Suc i)
          \<lparr> bestIndex = i, bestScore = currentScore rule overrideKey t, foundCues = True \<rparr>
      else scanTracks rule overrideKey ts (Suc i) st)"

definition getVideoTextTrackIndex :: "textTrack list \<Rightarrow> AudioRule \<Rightarrow> ruleKey option \<Rightarrow> nat option" where
  "getVideoTextTrackIndex textTracks rule overrideKey =
     scanTracks rule overrideKey textTracks 0 \<lparr> bestIndex = 0, bestScore = 0, foundCues = False \<rparr>"

definition getVideoTextTrack :: "textTrack list \<Rightarrow> AudioRule \<Rightarrow> ruleKey option \<Rightarrow> textTrack option" where
  "getVideoTextTrack textTracks rule overrideKey =
     map_option (\<lambda>i. textTracks ! i) (getVideoTextTrackIndex textTracks rule overrideKey)"

section \<open>Classifying cues\<close>

record ReplaceTextResult =
  resultFiltered :: string
  resultModified :: bool
  resultOriginal :: string

text \<open>
  The text filter is an outside collaborator, which counts what it replaces. It is a
  parameter \<open>flt\<close> of the model: from its own state \<open>'f\<close> and a string it gives the
  result and its next state.

  The body of the loop of \<open>processCues\<close> for one cue. A cue that has the property
  \<open>filtered\<close> is skipped. \<open>rule.videoCueSync\<close> as a condition is a number other than zero.
\<close>

definition classifyCue ::
  "('f \<Rightarrow> string \<Rightarrow> ReplaceTextResult \<times> 'f) \<Rightarrow> AudioRule \<Rightarrow> cue \<Rightarrow> 'f \<Rightarrow> cue \<times> 'f" where
  "classifyCue flt rule c f =
     (if filtered c \<noteq> None then (c, f)
      else
        (let c1 = (case videoCueSync rule of
                     None \<Rightarrow> c
                   | Some d \<Rightarrow>
                       (if d \<noteq> 0
                        then c\<lparr> startTime := startTime c + d, endTime := endTime c + d \<rparr>
                        else c));
             (result, f') = flt f (text' c1);
             c2 = c1\<lparr> originalText := Some (text' c1),
                      filteredText := Some (resultFiltered result) \<rparr>
         in if resultModified result then
              (if isTrue (filterSubtitles rule) \<and> \<not> isTrue (apfCaptions rule)
               then (c2\<lparr> filtered := Some True, text' := resultFiltered result \<rparr>, f')
               else (c2\<lparr> filtered := Some True \<rparr>, f'))
            else (c2\<lparr> filtered := Some False \<rparr>, f')))"

text \<open>
  \<open>processCues(cues, rule)\<close>: the cues of the array are changed in place, one after the
  other; the model returns them, with the state of the filter.
\<close>

fun processCues ::
  "('f \<Rightarrow> string \<Rightarrow> ReplaceTextResult \<times> 'f) \<Rightarrow> AudioRule \<Rightarrow> cue list \<Rightarrow> 'f \<Rightarrow> cue list \<times> 'f" where
  "processCues flt rule [] f = ([], f)"
| "processCues flt rule (c # cs) f =
     (let (c', f1) = classifyCue flt rule c f;
          (cs', f2) = processCues flt rule cs f1
      in (c' # cs', f2))"

section \<open>Matching a node against the enabled rules\<close>

text \<open>
  A node handed to \<open>supportedNode\<close>, as the predicates read it. \<open>nodeRef\<close> is its
  identity. The properties that only elements have are in \<open>asElement\<close>, which is \<open>None\<close>
  for a text node or a comment; \<open>elQuerySelector\<close> is the node's own \<open>querySelector\<close>,
  giving the reference of the element found.
\<close>

record elementProps =
  elTagName :: string
  elClassName :: string
  classList :: "string list"
  dataset :: "string list"
  childElementCount :: nat
  elQuerySelector :: "string \<Rightarrow> nat option"

record node =
  nodeRef :: nat
  nodeName :: string
  parentElement :: "nat option"
  textContent :: "string option"
  asElement :: "elementProps option"

text \<open>
  The document, as the predicates query it: \<open>document.querySelector\<close>, the same from
  the root of a node (\<open>node.getRootNode()\<close>), \<open>querySelectorAll\<close> for both, and
  \<open>contains\<close> between an element and a node. A selector that is \<open>undefined\<close> is passed
  on as it is. Selectors are taken to be well formed, so the queries do not throw.
\<close>

record dom =
  docQuerySelector :: "string option \<Rightarrow> nat option"
  docQuerySelectorAll :: "string option \<Rightarrow> nat list"
  rootQuerySelector :: "nat \<Rightarrow> string option \<Rightarrow> nat option"
  rootQuerySelectorAll :: "nat \<Rightarrow> string option \<Rightarrow> nat list"
  contains :: "nat \<Rightarrow> nat \<Rightarrow> bool"

text \<open>A selector of the rule is given and the node's own query finds something.\<close>

definition lacksSelected :: "node \<Rightarrow> string option \<Rightarrow> bool" where
  "lacksSelected n sel =
     (truthy sel \<and>
      (case asElement n of
         None \<Rightarrow> True
       | Some e \<Rightarrow> elQuerySelector e (the sel) = None))"

definition supportedElementNode :: "node \<Rightarrow> AudioRule \<Rightarrow> bool" where
  "supportedElementNode n rule =
     (if Some (nodeName n) = tagName rule then
        (if truthy (className rule)
            \<and> (case asElement n of
                  None \<Rightarrow> True
                | Some e \<Rightarrow> elClassName e = [] \<or> the (className rule) \<notin> set (classList e))
         then False
         else if truthy (dataPropPresent rule)
            \<and> (case asElement n of
                  None \<Rightarrow> True
                | Some e \<Rightarrow> the (dataPropPresent rule) \<notin> set (dataset e))
         then False
         else if isTrue (hasChildrenElements rule)
            \<and> (case asElement n of None \<Rightarrow> True | Some e \<Rightarrow> childElementCount e = 0)
         then False
         else if lacksSelected n (subtitleSelector rule) then False
         else if lacksSelected n (containsSelector rule) then False
         else True)
      else False)"

definition supportedElementChildNode :: "dom \<Rightarrow> node \<Rightarrow> AudioRule \<Rightarrow> bool" where
  "supportedElementChildNode d n rule =
     (if Some (nodeName n) = tagName rule then
        (if truthy (parentSelector rule) then
           (case (if isTrue (rootNode rule) then rootQuerySelector d (nodeRef n) (parentSelector rule)
                  else docQuerySelector d (parentSelector rule)) of
              None \<Rightarrow> False
            | Some p \<Rightarrow> p = nodeRef n \<or> contains d p (nodeRef n))
         else
           list_ex (\<lambda>p. contains d p (nodeRef n))
             (if isTrue (rootNode rule)
              then rootQuerySelectorAll d (nodeRef n) (parentSelectorAll rule)
              else docQuerySelectorAll d (parentSelectorAll rule)))
      else False)"

definition supportedTextNode :: "dom \<Rightarrow> node \<Rightarrow> AudioRule \<Rightarrow> bool" where
  "supportedTextNode d n rule =
     (if Some (nodeName n) = tagName rule then
        (case docQuerySelector d (parentSelector rule) of
           None \<Rightarrow> False
         | Some p \<Rightarrow> contains d p (nodeRef n))
      else False)"

definition supportedWatcherNode :: "dom \<Rightarrow> engine \<Rightarrow> node \<Rightarrow> AudioRule \<Rightarrow> bool" where
  "supportedWatcherNode d s n rule =
     (if subtitleSelector rule \<noteq> None \<and> parentElement n \<noteq> None
         \<and> parentElement n = getElement s (subtitleSelector rule)
      then True
      else if parentSelector rule \<noteq> None then
        (case getElement s (parentSelector rule) of
           None \<Rightarrow> False
         | Some p \<Rightarrow> contains d p (nodeRef n))
      else False)"

text \<open>
  \<open>toLowerCase\<close> on the code units below 256: the letters A to Z and the accented
  capitals 0xC0 to 0xDE (0xD7 is the multiplication sign) go to their small letters,
  32 above.
\<close>

definition toLowerChar :: "char \<Rightarrow> char" where
  "toLowerChar c =
     (case map_of (zip ''ABCDEFGHIJKLMNOPQRSTUVWXYZ'' ''abcdefghijklmnopqrstuvwxyz'') c of
        Some l \<Rightarrow> l
      | None \<Rightarrow>
          (if 192 \<le> (of_char c :: nat) \<and> (of_char c :: nat) \<le> 222
              \<and> (of_char c :: nat) \<noteq> 215
           then char_of ((of_char c :: nat) + 32)
           else c))"

definition toLowerCase :: "string \<Rightarrow> string" where
  "toLowerCase s = map toLowerChar s"

definition joinWith :: "string \<Rightarrow> string list \<Rightarrow> string" where
  "joinWith sep xs = (case xs of [] \<Rightarrow> [] | y # ys \<Rightarrow> y @ concat (map (\<lambda>z. sep @ z) ys))"

text \<open>The node carries the text that triggers a rule of mode \<open>dynamic\<close>.\<close>

definition triggers :: "node \<Rightarrow> AudioRule \<Rightarrow> bool" where
  "triggers n rule = (textContent n \<noteq> None \<and> textContent n = dynamicTextKey rule)"

text \<open>
  \<open>supportedDynamicNode\<close>: on the trigger the rule takes its target mode, its
  \<open>parentSelectorAll\<close> gets the node's tag and classes in front, and \<open>initRule\<close> runs
  again for it. Reading the tag of a node that is not an element throws; the rule has
  its target mode by then, so the error comes with the engine in which the mode is
  changed and nothing else.
\<close>

definition supportedDynamicNode :: "node \<Rightarrow> nat \<Rightarrow> engine \<Rightarrow> error \<times> engine + engine" where
  "supportedDynamicNode n i s =
     (let rule = rules s ! i in
      if triggers n rule then
        (let r0 = rule\<lparr> mode := dynamicTargetMode rule \<rparr> in
         case asElement n of
           None \<Rightarrow> Inl (TypeError ''tagName'', s\<lparr> rules := (rules s)[i := r0] \<rparr>)
         | Some e \<Rightarrow>
             (let r1 = r0\<lparr> parentSelectorAll :=
                               Some (toLowerCase (elTagName e) @ ''.''
                                     @ joinWith ''.'' (classList e) @ '' ''
                                     @ (case parentSelectorAll rule of
                                          None \<Rightarrow> ''undefined'' | Some p \<Rightarrow> p)) \<rparr>;
                  (r2, s1) = initRule (int i) r1 s
              in Inr (s1\<lparr> rules := (rules s1)[i := r2] \<rparr>)))
      else Inr s)"

text \<open>
  \<open>supportedCaptionsFound(found, forceUpdate)\<close>: the background is told once that
  captions were found.
\<close>

definition supportedCaptionsFound :: "bool \<Rightarrow> bool \<Rightarrow> engine \<Rightarrow> engine" where
  "supportedCaptionsFound found forceUpdate s =
     (if \<not> extension s \<or> (\<not> forceUpdate \<and> found = supportedCaptions s) then s
      else s\<lparr> supportedCaptions := found,
              calls := calls s @ [SendCaptionsStatus found forceUpdate] \<rparr>)"

text \<open>
  What \<open>supportedNode\<close> returns: a rule id, which is a number, or the boolean \<open>false\<close>.
  As a condition, a number holds unless it is zero, and \<open>false\<close> does not hold.
\<close>

datatype found = RuleId int | NotFound

fun holds :: "found \<Rightarrow> bool" where
  "holds (RuleId r) = (r \<noteq> 0)"
| "holds NotFound = False"

text \<open>
  The predicate that the \<open>switch\<close> of \<open>supportedNode\<close> applies for the mode of a rule.
  The mode \<open>dynamic\<close> and every other mode set \<open>supported\<close> to nothing, so it stays
  false.
\<close>

definition accepts :: "dom \<Rightarrow> engine \<Rightarrow> node \<Rightarrow> AudioRule \<Rightarrow> bool" where
  "accepts d s n rule =
     (if mode rule = Some ''element'' then supportedElementNode n rule
      else if mode rule = Some ''elementChild'' then supportedElementChildNode d n rule
      else if mode rule = Some ''text'' then supportedTextNode d n rule
      else if mode rule = Some ''watcher'' then supportedWatcherNode d s n rule
      else False)"

text \<open>
  One turn of the loop of \<open>supportedNode\<close> up to the test of \<open>supported\<close>. An id that is
  no position of \<open>this.rules\<close> gives no rule, and reading its mode throws.
\<close>

definition visitRule :: "dom \<Rightarrow> node \<Rightarrow> int \<Rightarrow> engine \<Rightarrow> error \<times> engine + bool \<times> engine" where
  "visitRule d n ruleId s =
     (if ruleId < 0 \<or> int (length (rules s)) \<le> ruleId then Inl (TypeError ''mode'', s)
      else if mode (rules s ! nat ruleId) = Some ''dynamic'' then
        (case supportedDynamicNode n (nat ruleId) s of
           Inl err \<Rightarrow> Inl err
         | Inr s1 \<Rightarrow> Inr (False, s1))
      else Inr (accepts d s n (rules s ! nat ruleId), s))"

text \<open>
  The loop of \<open>supportedNode\<close> from position \<open>i\<close> of \<open>enabledRuleIds\<close>. A rule of mode
  \<open>dynamic\<close> can add to \<open>enabledRuleIds\<close> while the loop runs, so the loop need not end:
  \<open>None\<close> is a run that does not return.
\<close>

partial_function (option) supportedLoop ::
  "dom \<Rightarrow> node \<Rightarrow> nat \<Rightarrow> engine \<Rightarrow> (error \<times> engine + found \<times> engine) option" where
  "supportedLoop d n i s =
     (if i < length (enabledRuleIds s) then
        (case visitRule d n (enabledRuleIds s ! i) s of
           Inl err \<Rightarrow> Some (Inl err)
         | Inr (supported, s1) \<Rightarrow>
             (if supported
              then Some (Inr (RuleId (enabledRuleIds s ! i), supportedCaptionsFound True False s1))
              else supportedLoop d n (Suc i) s1))
      else Some (Inr (NotFound, s)))"

definition supportedNode :: "dom \<Rightarrow> node \<Rightarrow> engine \<Rightarrow> (error \<times> engine + found \<times> engine) option" where
  "supportedNode d n s = supportedLoop d n 0 s"

text \<open>
  The first enabled rule, in the order of \<open>enabledRuleIds\<close>, whose predicate accepts the
  node.
\<close>

definition firstAccepting :: "dom \<Rightarrow> engine \<Rightarrow> node \<Rightarrow> int option" where
  "firstAccepting d s n = find (\<lambda>r. accepts d s n (rules s ! nat r)) (enabledRuleIds s)"

text \<open>
  The enabled ids that a scan without a trigger reaches: those up to and including the
  first whose rule accepts the node, all of them if none does.
\<close>

definition scanned :: "dom \<Rightarrow> engine \<Rightarrow> node \<Rightarrow> int list" where
  "scanned d s n =
     take (Suc (length (takeWhile (\<lambda>r. \<not> accepts d s n (rules s ! nat r)) (enabledRuleIds s))))
       (enabledRuleIds s)"

text \<open>
  The scan is ordinary: every id it reaches is a position of \<open>this.rules\<close>, and no rule
  of mode \<open>dynamic\<close> that it reaches is triggered by the node.
\<close>

definition ordinary :: "dom \<Rightarrow> engine \<Rightarrow> node \<Rightarrow> bool" where
  "ordinary d s n =
     (\<forall>r \<in> set (scanned d s n).
        0 \<le> r \<and> r < int (length (rules s))
        \<and> \<not> (mode (rules s ! nat r) = Some ''dynamic'' \<and> triggers n (rules s ! nat r)))"

text \<open>
  A scan that cannot end: from position \<open>i\<close> on, every enabled id is rule 0, which is of
  mode \<open>dynamic\<close> with \<open>dynamic\<close> as its own target mode and is triggered by the node,
  an element.
\<close>

definition looping :: "node \<Rightarrow> nat \<Rightarrow> engine \<Rightarrow> bool" where
  "looping n i s =
     (i < length (enabledRuleIds s)
      \<and> (\<forall>j. i \<le> j \<and> j < length (enabledRuleIds s) \<longrightarrow> enabledRuleIds s ! j = 0)
      \<and> rules s \<noteq> []
      \<and> mode (rules s ! 0) = Some ''dynamic''
      \<and> dynamicTargetMode (rules s ! 0) = Some ''dynamic''
      \<and> triggers n (rules s ! 0)
      \<and> asElement n \<noteq> None
      \<and> iframe (rules s ! 0) = None
      \<and> \<not> isDisabled (rules s ! 0))"

section \<open>Concrete inputs\<close>

text \<open>
  The inputs at which the functions are evaluated below. First two SubRip texts: the
  example of the specification, and a text of two blocks whose first start time is
  malformed.
\<close>

definition srtExample :: string where
  "srtExample =
     ''1'' @ [CHR 0x0A] @ ''00:00:01,000 --> 00:00:02,000'' @ [CHR 0x0A] @ ''Hello''
       @ [CHR 0x0A, CHR 0x0A]"

definition srtBadFirstBlock :: string where
  "srtBadFirstBlock =
     ''1'' @ [CHR 0x0A] @ ''00:00:0x,000 --> 00:00:02,000'' @ [CHR 0x0A] @ ''Bad''
       @ [CHR 0x0A, CHR 0x0A]
       @ ''2'' @ [CHR 0x0A] @ ''00:00:03,000 --> 00:00:04,000'' @ [CHR 0x0A] @ ''Good''
       @ [CHR 0x0A, CHR 0x0A]"

text \<open>A rule without any field, a video at rest.\<close>

definition noRule :: AudioRule where
  "noRule =
     \<lparr> dynamic' = None, apfCaptions = None, apfCuesLabel = None, checkInterval = None,
       className = None, containsSelector = None, dataPropPresent = None, disabled = None,
       displayHide = None, displaySelector = None, displayShow = None,
       dynamicTargetMode = None, dynamicTextKey = None, externalSub = None,
       externalSubFormatKey = None, externalSubTrackLabel = None,
       externalSubTrackMode = None, externalSubURLKey = None, filterSubtitles = None,
       hasChildrenElements = None, iframe = None, ignoreMutations = None, mode = None,
       muteMethod = None, parentSelector = None, parentSelectorAll = None, rootNode = None,
       showSubtitles = None, simpleUnmute = None, subtitleSelector = None, tagName = None,
       toCue = None, unmuteDelay = None, videoCueHideCues = None, videoCueKind = None,
       videoCueLabel = None, videoCueLanguage = None, videoCueRequireShowing = None,
       videoCueSync = None, videoSelector = None \<rparr>"

definition idleVideo :: video where
  "idleVideo =
     \<lparr> vMuted = False, vVolume = Some 1, currentTime = 0, paused = True, ended = False,
       readyState = 0, fillerListeners = False \<rparr>"

text \<open>
  The engine as its constructor leaves it on a page without rules: nothing muted, no
  timer, statistics collected, the tab method as the configured default.
\<close>

definition idleEngine :: engine where
  "idleEngine =
     \<lparr> rules = [], apfCaptionRuleIds = [], cueRuleIds = [], enabledRuleIds = [],
       watcherRuleIds = [], fillerAudio = None, muted = False, supportedCaptions = False,
       unmuteTimeout = None, volume = 1, collectStats = True, statsMutes = 0,
       cfgMuteMethod = 0, cfgShowSubtitles = 0, muteCueRequireShowing = False,
       filterIframe = False, filterText = True, extension = True,
       MUTE_METHODS = \<lparr> TAB = 0, VIDEO_MUTE = 1, VIDEO_VOLUME = 2 \<rparr>,
       getElement = (\<lambda>sel. None), videos = (\<lambda>r. idleVideo), timers = [], lastHandle = 0,
       windowUnmuteTimeout = None, calls = [] \<rparr>"

definition mutedEngine :: engine where
  "mutedEngine = idleEngine\<lparr> muted := True \<rparr>"

text \<open>A rule muting the tab, with a delay before unmuting.\<close>

definition delayRule :: "int \<Rightarrow> AudioRule" where
  "delayRule d = noRule\<lparr> mode := Some ''watcher'', muteMethod := Some 0, unmuteDelay := Some d \<rparr>"

text \<open>A rule of mode \<open>dynamic\<close> for which no target mode is configured.\<close>

definition dynamicRule :: AudioRule where
  "dynamicRule = noRule\<lparr> mode := Some ''dynamic'', dynamicTextKey := Some ''Loading'' \<rparr>"

text \<open>
  A page with a playing video, found by the selector \<open>video\<close>, and filler audio at rest;
  a rule that mutes the video.
\<close>

definition playingVideo :: video where
  "playingVideo =
     \<lparr> vMuted = False, vVolume = Some 1, currentTime = 12, paused = False, ended = False,
       readyState = 4, fillerListeners = False \<rparr>"

definition videoEngine :: engine where
  "videoEngine =
     idleEngine\<lparr> fillerAudio := Some \<lparr> aPaused = True, aCurrentTime = 0 \<rparr>,
                 getElement := (\<lambda>sel. if sel = Some ''video'' then Some 3 else None),
                 videos := (\<lambda>r. playingVideo) \<rparr>"

definition videoRule :: AudioRule where
  "videoRule =
     noRule\<lparr> mode := Some ''watcher'', muteMethod := Some 1, videoSelector := Some ''video'' \<rparr>"


text \<open>Tracks and rules for the choice of a text track.\<close>

definition oneCue :: "cue list" where
  "oneCue = [VTTCue 1 2 (Some ''Hello'')]"

definition track :: "string \<Rightarrow> string \<Rightarrow> string \<Rightarrow> textTrack" where
  "track k l m =
     \<lparr> trackKind = k, trackLabel = l, trackLanguage = ''en'', trackMode = m,
       trackCues = Some oneCue \<rparr>"

definition labelRule :: AudioRule where
  "labelRule = noRule\<lparr> mode := Some ''cue'', videoCueLabel := Some ''English'' \<rparr>"

definition labelKindRule :: AudioRule where
  "labelKindRule = labelRule\<lparr> videoCueKind := Some ''captions'' \<rparr>"

definition plainRule :: AudioRule where
  "plainRule = noRule\<lparr> mode := Some ''cue'' \<rparr>"

definition labelTracks :: "textTrack list" where
  "labelTracks =
     [track ''captions'' ''English'' ''showing'', track ''metadata'' ''English'' ''showing'']"

definition metadataFirstTracks :: "textTrack list" where
  "metadataFirstTracks =
     [track ''metadata'' ''English'' ''showing'', track ''captions'' ''English'' ''showing'']"

definition mixedTracks :: "textTrack list" where
  "mixedTracks =
     [(track ''captions'' ''English'' ''showing'')\<lparr> trackCues := None \<rparr>,
      track ''captions'' ''French'' ''showing'',
      track ''captions'' ''English'' ''showing'',
      track ''captions'' ''English'' ''hidden'']"

text \<open>
  A filter that replaces one word and counts its calls, and two cues, the second of
  which is classified already.
\<close>

definition wordFilter :: "nat \<Rightarrow> string \<Rightarrow> ReplaceTextResult \<times> nat" where
  "wordFilter n s =
     (\<lparr> resultFiltered = (if s = ''damn'' then ''****'' else s),
        resultModified = (s = ''damn''), resultOriginal = s \<rparr>, Suc n)"

definition twoCues :: "cue list" where
  "twoCues = [VTTCue 1 2 (Some ''damn''), (VTTCue 3 4 (Some ''fine''))\<lparr> filtered := Some False \<rparr>]"

definition cueRule :: AudioRule where
  "cueRule = noRule\<lparr> mode := Some ''cue'', filterSubtitles := Some True \<rparr>"

text \<open>
  A page with one enabled rule, of mode \<open>watcher\<close>, whose parent selector finds element
  7, and a text node 9 inside that element.
\<close>

definition watcherRule :: AudioRule where
  "watcherRule =
     noRule\<lparr> mode := Some ''watcher'', parentSelector := Some ''div.captions'',
             muteMethod := Some 0 \<rparr>"

definition watcherEngine :: engine where
  "watcherEngine =
     idleEngine\<lparr> rules := [watcherRule], enabledRuleIds := [0], watcherRuleIds := [0],
                 getElement := (\<lambda>sel. if sel = Some ''div.captions'' then Some 7 else None) \<rparr>"

definition captionDom :: dom where
  "captionDom =
     \<lparr> docQuerySelector = (\<lambda>sel. if sel = Some ''div.captions'' then Some 7 else None),
       docQuerySelectorAll = (\<lambda>sel. if sel = Some ''div.captions'' then [7] else []),
       rootQuerySelector = (\<lambda>r sel. if sel = Some ''div.captions'' then Some 7 else None),
       rootQuerySelectorAll = (\<lambda>r sel. if sel = Some ''div.captions'' then [7] else []),
       contains = (\<lambda>p c. p = c \<or> (p = 7 \<and> c = 9)) \<rparr>"

definition captionText :: node where
  "captionText =
     \<lparr> nodeRef = 9, nodeName = ''#text'', parentElement = Some 7,
       textContent = Some ''Hello'', asElement = None \<rparr>"

text \<open>
  A page whose one enabled rule is of mode \<open>dynamic\<close> with the target mode \<open>watcher\<close>,
  and the element that carries its trigger text.
\<close>

definition targetRule :: AudioRule where
  "targetRule =
     noRule\<lparr> mode := Some ''dynamic'', dynamicTargetMode := Some ''watcher'',
             dynamicTextKey := Some ''Loading'', parentSelector := Some ''div.captions'' \<rparr>"

definition targetEngine :: engine where
  "targetEngine =
     idleEngine\<lparr> rules := [targetRule], enabledRuleIds := [0],
                 getElement := (\<lambda>sel. if sel = Some ''div.captions'' then Some 7 else None) \<rparr>"

definition loadingElement :: node where
  "loadingElement =
     \<lparr> nodeRef = 9, nodeName = ''DIV'', parentElement = Some 7,
       textContent = Some ''Loading'',
       asElement = Some \<lparr> elTagName = ''DIV'', elClassName = ''a b'', classList = [''a'', ''b''],
                          dataset = [], childElementCount = 0,
                          elQuerySelector = (\<lambda>sel. None) \<rparr> \<rparr>"

text \<open>The same page where the target mode of the rule is \<open>dynamic\<close> again.\<close>

definition selfRule :: AudioRule where
  "selfRule = targetRule\<lparr> dynamicTargetMode := Some ''dynamic'' \<rparr>"

definition selfEngine :: engine where
  "selfEngine = targetEngine\<lparr> rules := [selfRule] \<rparr>"

text \<open>A text node that carries the trigger text.\<close>

definition loadingText :: node where
  "loadingText =
     \<lparr> nodeRef = 10, nodeName = ''#text'', parentElement = Some 9,
       textContent = Some ''Loading'', asElement = None \<rparr>"

text \<open>
  A page whose one rule is of mode \<open>dynamic\<close> with the target mode \<open>element\<close> and no tag
  name, as the loop of the constructor leaves it; and the rule as \<open>supportedDynamicNode\<close>
  hands it to \<open>initRule\<close> when the element that carries its trigger text is added.
\<close>

definition elementTargetRule :: AudioRule where
  "elementTargetRule =
     noRule\<lparr> mode := Some ''dynamic'', dynamicTargetMode := Some ''element'',
             dynamicTextKey := Some ''Loading'' \<rparr>"

definition elementTargetPage :: engine where
  "elementTargetPage = initRules (idleEngine\<lparr> rules := [elementTargetRule] \<rparr>)"

definition retargetedRule :: AudioRule where
  "retargetedRule =
     (rules elementTargetPage ! 0)\<lparr> mode := Some ''element'',
                                     parentSelectorAll := Some ''div.a.b undefined'' \<rparr>"


section \<open>Properties of the SubRip parser\<close>

lemmas srt_eval_simps =
  srtLines_def trim_def isWhiteSpace_def startsWith_def isLineBreak_def
  srtLine_def matchArrow_def isBlank_def truthy_def pushCue_def newCue_def toSeconds_def
  hmsToSeconds_def decimal_def secondsField_def isFractionMark_def digitValue_def
  VTTCue_def Let_def

lemma srtLines_srtExample:
  "srtLines srtExample = [''1'', ''00:00:01,000 --> 00:00:02,000'', ''Hello'']"
  by (simp add: srtExample_def srt_eval_simps)

lemma srtLines_srtBadFirstBlock:
  "srtLines srtBadFirstBlock =
     [''1'', ''00:00:0x,000 --> 00:00:02,000'', ''Bad'', [],
      ''2'', ''00:00:03,000 --> 00:00:04,000'', ''Good'']"
  by (simp add: srtBadFirstBlock_def srt_eval_simps)

text \<open>
  C8. Parsing the text \<open>1\n00:00:01,000 --> 00:00:02,000\nHello\n\n\<close> as SubRip gives
  exactly one cue, which starts at 1 second, ends at 2 seconds and has the text
  \<open>Hello\<close>.
\<close>

theorem parseSRT_example:
  "parseSRT hmsToSeconds srtExample =
     Inr [Some \<lparr> startTime = 1, endTime = 2, text' = ''Hello'',
                 filtered = None, filteredText = None, originalText = None \<rparr>]"
  unfolding parseSRT_def srtLines_srtExample
  by (simp add: srt_eval_simps)







lemma srtBlocks_srtBadFirstBlock:
  "srtBlocks srtBadFirstBlock =
     Inr [(''00:00:0x,000'', ''00:00:02,000'', Some ''Bad''),
          (''00:00:03,000'', ''00:00:04,000'', Some ''Good'')]"
  unfolding srtBlocks_def srtLines_srtBadFirstBlock
  by (simp add: blockLine_def pushBlock_def matchArrow_def isBlank_def startsWith_def
      truthy_def Let_def)


section \<open>Properties of the mute controller\<close>

lemma muteEffector_keeps:
  "muted (muteEffector rule v s) = muted s"
  "unmuteTimeout (muteEffector rule v s) = unmuteTimeout s"
  "statsMutes (muteEffector rule v s) = statsMutes s"
  "timers (muteEffector rule v s) = timers s"
  by (simp_all add: muteEffector_def playFillerAudio_def Let_def split: option.splits)

lemma muteEffector_calls:
  "calls (muteEffector rule v s) =
     calls s @ (if muteMethod rule = Some (TAB (MUTE_METHODS s)) then [SendMute True] else [])"
  by (simp add: muteEffector_def playFillerAudio_def Let_def split: option.splits)

lemma clearUnmuteTimeout_keeps:
  "muted (clearUnmuteTimeout rule s) = muted s"
  "statsMutes (clearUnmuteTimeout rule s) = statsMutes s"
  "calls (clearUnmuteTimeout rule s) = calls s"
  by (simp_all add: clearUnmuteTimeout_def clearTimeout_def split: option.splits)

lemma clearUnmuteTimeout_None:
  "unmuteTimeout s = None \<Longrightarrow> clearUnmuteTimeout rule s = s"
  by (simp add: clearUnmuteTimeout_def)

lemma clearUnmuteTimeout_cleared:
  "nonZero (unmuteDelay rule) \<Longrightarrow> unmuteTimeout (clearUnmuteTimeout rule s) = None"
  by (simp add: clearUnmuteTimeout_def clearTimeout_def split: option.splits)

lemma mute_muted: "muted (mute rule v s)"
  by (simp add: mute_def Let_def clearUnmuteTimeout_keeps muteEffector_keeps)

lemma mute_when_muted:
  "muted s \<Longrightarrow>
   mute rule v s =
     (if nonZero (unmuteDelay rule) \<and> unmuteTimeout s \<noteq> None \<and> unmuteTimeout s \<noteq> Some 0
      then clearUnmuteTimeout rule s else s)"
  by (simp add: mute_def)

lemma mute_settled:
  "\<not> (nonZero (unmuteDelay rule) \<and> unmuteTimeout (mute rule v s) \<noteq> None
       \<and> unmuteTimeout (mute rule v s) \<noteq> Some 0)"
  by (auto simp: mute_def Let_def clearUnmuteTimeout_cleared)

lemma mute_idempotent: "mute rule v' (mute rule v s) = mute rule v s"
  using mute_settled [of rule v s]
  by (simp only: mute_when_muted [OF mute_muted] if_False)

lemma mute_stats:
  "\<not> muted s \<Longrightarrow>
   statsMutes (mute rule v s) = (if collectStats s then Suc (statsMutes s) else statsMutes s)"
  by (simp add: mute_def Let_def clearUnmuteTimeout_keeps muteEffector_keeps)

lemma mute_calls:
  "\<not> muted s \<Longrightarrow>
   calls (mute rule v s) =
     calls s @ (if muteMethod rule = Some (TAB (MUTE_METHODS s)) then [SendMute True] else [])"
  by (simp add: mute_def Let_def clearUnmuteTimeout_keeps muteEffector_calls)

text \<open>
  Every non-delayed \<open>unmute\<close> of a muted engine under a delay of zero or more adds a
  timer and removes none: the call to \<open>clearUnmuteTimeout\<close> is made only when no handle
  is stored, where it does nothing.
\<close>

lemma unmute_adds_timer:
  assumes "muted s" and "unmuteDelay rule = Some d" and "0 \<le> d"
  shows "timers (unmute rule v False s) =
           timers s @ [\<lparr> handle = Suc (lastHandle s), delay = d, timerRule = rule \<rparr>]"
    and "muted (unmute rule v False s)"
    and "unmuteTimeout (unmute rule v False s) = Some (Suc (lastHandle s))"
    and "lastHandle (unmute rule v False s) = Suc (lastHandle s)"
  using assms
  by (simp_all add: unmute_def setTimeout_def Let_def clearUnmuteTimeout_None)

text \<open>
  C1. Two non-delayed calls of \<open>unmute\<close> for a rule with a delay of 500 ms, on a muted
  engine without timers: the first sets one timer and leaves the engine muted; the
  second sets another and cancels nothing, so two timers are pending.
\<close>

theorem unmute_twice_stacks_timers:
  "map handle (timers (unmute (delayRule 500) None False mutedEngine)) = [1]
   \<and> muted (unmute (delayRule 500) None False mutedEngine)
   \<and> map handle (timers (unmute (delayRule 500) None False
                            (unmute (delayRule 500) None False mutedEngine))) = [1, 2]
   \<and> unmuteTimeout (unmute (delayRule 500) None False
                       (unmute (delayRule 500) None False mutedEngine)) = Some 2"
  by (simp add: unmute_adds_timer delayRule_def mutedEngine_def idleEngine_def)

lemma mute_keeps_timer_of_zero_delay:
  "map handle (timers (unmute (delayRule 0) None False mutedEngine)) = [1]
   \<and> map handle (timers (mute (delayRule 0) None
                            (unmute (delayRule 0) None False mutedEngine))) = [1]
   \<and> muted (mute (delayRule 0) None (unmute (delayRule 0) None False mutedEngine))
   \<and> \<not> muted (expire 1 (mute (delayRule 0) None
                            (unmute (delayRule 0) None False mutedEngine)))"
  by (simp add: unmute_def mute_def expire_def delayedUnmute_def unmuteEffector_def
      setTimeout_def clearTimeout_def clearUnmuteTimeout_def nonZero_def Let_def
      delayRule_def mutedEngine_def idleEngine_def noRule_def)

lemma mute_keeps_stacked_timer:
  "map handle (timers (unmute (delayRule 500) None False
                         (unmute (delayRule 500) None False mutedEngine))) = [1, 2]
   \<and> map handle (timers (mute (delayRule 500) None
                            (unmute (delayRule 500) None False
                               (unmute (delayRule 500) None False mutedEngine)))) = [1]
   \<and> muted (mute (delayRule 500) None
               (unmute (delayRule 500) None False
                  (unmute (delayRule 500) None False mutedEngine)))
   \<and> \<not> muted (expire 1 (mute (delayRule 500) None
                            (unmute (delayRule 500) None False
                               (unmute (delayRule 500) None False mutedEngine))))"
  by (simp add: unmute_def mute_def expire_def delayedUnmute_def unmuteEffector_def
      setTimeout_def clearTimeout_def clearUnmuteTimeout_def nonZero_def Let_def
      delayRule_def mutedEngine_def idleEngine_def noRule_def)

text \<open>
  C3. \<open>mute\<close> does not always cancel the pending timer of the rule. After two calls of
  \<open>unmute\<close> with a delay of 500 ms two timers are pending; \<open>mute\<close> cancels the one
  whose handle is stored, the earlier one stays pending, and when it runs the engine is
  unmuted. With a delay of zero \<open>unmute\<close> sets a timer, \<open>mute\<close> for the same rule leaves
  it pending, and when it runs the engine is unmuted.
\<close>

theorem mute_leaves_timer_pending:
  "map handle (timers (unmute (delayRule 500) None False
                         (unmute (delayRule 500) None False mutedEngine))) = [1, 2]
   \<and> map handle (timers (mute (delayRule 500) None
                            (unmute (delayRule 500) None False
                               (unmute (delayRule 500) None False mutedEngine)))) = [1]
   \<and> \<not> muted (expire 1 (mute (delayRule 500) None
                            (unmute (delayRule 500) None False
                               (unmute (delayRule 500) None False mutedEngine))))
   \<and> map handle (timers (unmute (delayRule 0) None False mutedEngine)) = [1]
   \<and> map handle (timers (mute (delayRule 0) None
                            (unmute (delayRule 0) None False mutedEngine))) = [1]
   \<and> \<not> muted (expire 1 (mute (delayRule 0) None
                            (unmute (delayRule 0) None False mutedEngine)))"
  using mute_keeps_timer_of_zero_delay mute_keeps_stacked_timer
  by blast

text \<open>
  Where the delay is not zero and the stored handle is that of the only pending timer,
  \<open>mute\<close> does cancel it.
\<close>

lemma mute_cancels_single_timer:
  assumes "nonZero (unmuteDelay rule)" and "muted s"
    and "timers s = [t]" and "unmuteTimeout s = Some (handle t)" and "handle t \<noteq> 0"
  shows "timers (mute rule v s) = []" and "unmuteTimeout (mute rule v s) = None"
  using assms
  by (simp_all add: mute_def clearUnmuteTimeout_def clearTimeout_def)

text \<open>
  What each effector of \<open>mute\<close> does to the page. \<open>filler\<close> says that there is filler
  audio and the video is playing, which is when the filler audio is started and its two
  listeners are put on the video.
\<close>

lemma setMuted_again: "vMuted x \<Longrightarrow> x\<lparr> vMuted := True \<rparr> = x"
  by (cases x) simp

lemma listeners_again: "x\<lparr> fillerListeners := fillerListeners x \<rparr> = x"
  by (cases x) simp

lemma playFillerAudio_None: "playFillerAudio None s = s"
  by (simp add: playFillerAudio_def videoAt_def playing_def)

lemma playFillerAudio_Some:
  "playFillerAudio (Some y) s =
     (if playing (Some (videos s y)) then
        s\<lparr> fillerAudio := map_option (\<lambda>a. a\<lparr> aPaused := False \<rparr>) (fillerAudio s),
           videos := (videos s)(y := (videos s y)\<lparr> fillerListeners := True \<rparr>) \<rparr>
      else s)"
  by (simp add: playFillerAudio_def videoAt_def)

lemma playing_setMuted: "playing (Some (x\<lparr> vMuted := b \<rparr>)) = playing (Some x)"
  by (simp add: playing_def)

lemma playing_setVolume: "playing (Some (x\<lparr> vVolume := b \<rparr>)) = playing (Some x)"
  by (simp add: playing_def)

lemma muteEffector_tab:
  assumes "muteMethod rule = Some (TAB (MUTE_METHODS s))"
  shows "muteEffector rule v s = s\<lparr> calls := calls s @ [SendMute True] \<rparr>"
  using assms by (simp add: muteEffector_def)

lemma muteEffector_video_mute_None:
  assumes "muteMethod rule \<noteq> Some (TAB (MUTE_METHODS s))"
    and "muteMethod rule = Some (VIDEO_MUTE (MUTE_METHODS s))"
    and "videoOr v rule s = None"
  shows "muteEffector rule v s = s"
  using assms by (simp add: muteEffector_def playFillerAudio_None)

lemma keep_listeners:
  "\<not> b \<Longrightarrow> x\<lparr> fillerListeners := (fillerListeners x \<or> b) \<rparr> = x"
  by (cases x) simp

lemma muteEffector_video_mute_Some:
  assumes "muteMethod rule \<noteq> Some (TAB (MUTE_METHODS s))"
    and "muteMethod rule = Some (VIDEO_MUTE (MUTE_METHODS s))"
    and "videoOr v rule s = Some y"
  shows "volume (muteEffector rule v s) = volume s"
    and "videos (muteEffector rule v s) =
           (videos s)(y := (videos s y)
              \<lparr> vMuted := True,
                fillerListeners := (fillerListeners (videos s y)
                   \<or> (fillerAudio s \<noteq> None \<and> playing (Some (videos s y)))) \<rparr>)"
    and "fillerAudio (muteEffector rule v s) =
           (if fillerAudio s \<noteq> None \<and> playing (Some (videos s y))
            then map_option (\<lambda>a. a\<lparr> aPaused := False \<rparr>) (fillerAudio s)
            else fillerAudio s)"
proof -
  define s1 where
    "s1 = (if \<not> vMuted (videos s y)
           then s\<lparr> videos := (videos s)(y := (videos s y)\<lparr> vMuted := True \<rparr>) \<rparr>
           else s)"
  define b where "b = (fillerAudio s \<noteq> None \<and> playing (Some (videos s y)))"
  have e: "muteEffector rule v s
             = (if fillerAudio s1 \<noteq> None then playFillerAudio (Some y) s1 else s1)"
    using assms by (simp add: muteEffector_def s1_def)
  have v: "videos s1 = (videos s)(y := (videos s y)\<lparr> vMuted := True \<rparr>)"
    by (simp add: s1_def setMuted_again)
  have f: "fillerAudio s1 = fillerAudio s" "volume s1 = volume s"
    by (simp_all add: s1_def)
  have p: "playing (Some (videos s1 y)) = playing (Some (videos s y))"
    by (simp add: v playing_setMuted)
  have m: "muteEffector rule v s =
             (if b then
                s1\<lparr> fillerAudio := map_option (\<lambda>a. a\<lparr> aPaused := False \<rparr>) (fillerAudio s),
                    videos := (videos s1)(y := (videos s1 y)\<lparr> fillerListeners := True \<rparr>) \<rparr>
              else s1)"
    by (simp add: e playFillerAudio_Some p f b_def)
  show "volume (muteEffector rule v s) = volume s"
    by (simp add: m f)
  show "fillerAudio (muteEffector rule v s) =
           (if fillerAudio s \<noteq> None \<and> playing (Some (videos s y))
            then map_option (\<lambda>a. a\<lparr> aPaused := False \<rparr>) (fillerAudio s)
            else fillerAudio s)"
    unfolding b_def [symmetric] by (simp add: m f)
  show "videos (muteEffector rule v s) =
           (videos s)(y := (videos s y)
              \<lparr> vMuted := True,
                fillerListeners := (fillerListeners (videos s y)
                   \<or> (fillerAudio s \<noteq> None \<and> playing (Some (videos s y)))) \<rparr>)"
    unfolding b_def [symmetric]
  proof (cases b)
    case True
    then show "videos (muteEffector rule v s) =
           (videos s)(y := (videos s y)
              \<lparr> vMuted := True, fillerListeners := (fillerListeners (videos s y) \<or> b) \<rparr>)"
      by (simp add: m v)
  next
    case False
    have "(videos s y)\<lparr> vMuted := True, fillerListeners := (fillerListeners (videos s y) \<or> b) \<rparr>
            = (videos s y)\<lparr> vMuted := True \<rparr>"
      using False by (cases "videos s y") simp
    with False show "videos (muteEffector rule v s) =
           (videos s)(y := (videos s y)
              \<lparr> vMuted := True, fillerListeners := (fillerListeners (videos s y) \<or> b) \<rparr>)"
      by (simp only: m v if_False)
  qed
qed

lemma muteEffector_video_volume_None:
  assumes "muteMethod rule \<noteq> Some (TAB (MUTE_METHODS s))"
    and "muteMethod rule \<noteq> Some (VIDEO_MUTE (MUTE_METHODS s))"
    and "muteMethod rule = Some (VIDEO_VOLUME (MUTE_METHODS s))"
    and "videoOr v rule s = None"
  shows "muteEffector rule v s = s"
  using assms by (simp add: muteEffector_def playFillerAudio_None)

lemma muteEffector_video_volume_Some:
  assumes "muteMethod rule \<noteq> Some (TAB (MUTE_METHODS s))"
    and "muteMethod rule \<noteq> Some (VIDEO_MUTE (MUTE_METHODS s))"
    and "muteMethod rule = Some (VIDEO_VOLUME (MUTE_METHODS s))"
    and "videoOr v rule s = Some y"
  shows "volume (muteEffector rule v s) =
           (case vVolume (videos s y) of None \<Rightarrow> volume s | Some vol \<Rightarrow> vol)"
    and "videos (muteEffector rule v s) =
           (videos s)(y := (videos s y)
              \<lparr> vVolume := (case vVolume (videos s y) of None \<Rightarrow> None | Some vol \<Rightarrow> Some 0),
                fillerListeners := (fillerListeners (videos s y)
                   \<or> (fillerAudio s \<noteq> None \<and> playing (Some (videos s y)))) \<rparr>)"
    and "fillerAudio (muteEffector rule v s) =
           (if fillerAudio s \<noteq> None \<and> playing (Some (videos s y))
            then map_option (\<lambda>a. a\<lparr> aPaused := False \<rparr>) (fillerAudio s)
            else fillerAudio s)"
proof -
  define w where
    "w = (case vVolume (videos s y) of None \<Rightarrow> None | Some vol \<Rightarrow> Some (0::real))"
  define s1 where
    "s1 = (case vVolume (videos s y) of
             None \<Rightarrow> s
           | Some vol \<Rightarrow>
               s\<lparr> volume := vol,
                  videos := (videos s)(y := (videos s y)\<lparr> vVolume := Some 0 \<rparr>) \<rparr>)"
  define b where "b = (fillerAudio s \<noteq> None \<and> playing (Some (videos s y)))"
  have e: "muteEffector rule v s
             = (if fillerAudio s1 \<noteq> None then playFillerAudio (Some y) s1 else s1)"
    using assms by (simp add: muteEffector_def s1_def)
  have n: "vVolume (videos s y) = None \<Longrightarrow> (videos s y)\<lparr> vVolume := None \<rparr> = videos s y"
    by (cases "videos s y") simp
  have v: "videos s1 = (videos s)(y := (videos s y)\<lparr> vVolume := w \<rparr>)"
    by (cases "vVolume (videos s y)") (simp_all add: s1_def w_def n)
  have f: "fillerAudio s1 = fillerAudio s"
    "volume s1 = (case vVolume (videos s y) of None \<Rightarrow> volume s | Some vol \<Rightarrow> vol)"
    by (cases "vVolume (videos s y)"; simp add: s1_def)+
  have p: "playing (Some (videos s1 y)) = playing (Some (videos s y))"
    by (simp add: v playing_setVolume)
  have m: "muteEffector rule v s =
             (if b then
                s1\<lparr> fillerAudio := map_option (\<lambda>a. a\<lparr> aPaused := False \<rparr>) (fillerAudio s),
                    videos := (videos s1)(y := (videos s1 y)\<lparr> fillerListeners := True \<rparr>) \<rparr>
              else s1)"
    by (simp add: e playFillerAudio_Some p f(1) b_def)
  show "volume (muteEffector rule v s) =
           (case vVolume (videos s y) of None \<Rightarrow> volume s | Some vol \<Rightarrow> vol)"
    by (simp add: m f)
  show "fillerAudio (muteEffector rule v s) =
           (if fillerAudio s \<noteq> None \<and> playing (Some (videos s y))
            then map_option (\<lambda>a. a\<lparr> aPaused := False \<rparr>) (fillerAudio s)
            else fillerAudio s)"
    unfolding b_def [symmetric] by (simp add: m f)
  show "videos (muteEffector rule v s) =
           (videos s)(y := (videos s y)
              \<lparr> vVolume := (case vVolume (videos s y) of None \<Rightarrow> None | Some vol \<Rightarrow> Some 0),
                fillerListeners := (fillerListeners (videos s y)
                   \<or> (fillerAudio s \<noteq> None \<and> playing (Some (videos s y)))) \<rparr>)"
    unfolding b_def [symmetric] w_def [symmetric]
  proof (cases b)
    case True
    then show "videos (muteEffector rule v s) =
           (videos s)(y := (videos s y)
              \<lparr> vVolume := w, fillerListeners := (fillerListeners (videos s y) \<or> b) \<rparr>)"
      by (simp add: m v)
  next
    case False
    have "(videos s y)\<lparr> vVolume := w, fillerListeners := (fillerListeners (videos s y) \<or> b) \<rparr>
            = (videos s y)\<lparr> vVolume := w \<rparr>"
      using False by (cases "videos s y") simp
    with False show "videos (muteEffector rule v s) =
           (videos s)(y := (videos s y)
              \<lparr> vVolume := w, fillerListeners := (fillerListeners (videos s y) \<or> b) \<rparr>)"
      by (simp only: m v if_False)
  qed
qed

lemma muteEffector_other:
  assumes "muteMethod rule \<noteq> Some (TAB (MUTE_METHODS s))"
    and "muteMethod rule \<noteq> Some (VIDEO_MUTE (MUTE_METHODS s))"
    and "muteMethod rule \<noteq> Some (VIDEO_VOLUME (MUTE_METHODS s))"
  shows "muteEffector rule v s = s"
  using assms by (simp add: muteEffector_def)

lemma clearUnmuteTimeout_page:
  "videos (clearUnmuteTimeout rule s) = videos s"
  "volume (clearUnmuteTimeout rule s) = volume s"
  "fillerAudio (clearUnmuteTimeout rule s) = fillerAudio s"
  by (simp_all add: clearUnmuteTimeout_def clearTimeout_def split: option.splits)

text \<open>
  The page after an effector depends only on the page before it, the method constants
  and the element lookup.
\<close>

lemma muteEffector_page:
  assumes "MUTE_METHODS s' = MUTE_METHODS s" and "getElement s' = getElement s"
    and "videos s' = videos s" and "volume s' = volume s" and "fillerAudio s' = fillerAudio s"
  shows "videos (muteEffector rule v s') = videos (muteEffector rule v s)
         \<and> volume (muteEffector rule v s') = volume (muteEffector rule v s)
         \<and> fillerAudio (muteEffector rule v s') = fillerAudio (muteEffector rule v s)"
proof -
  have vo: "videoOr v rule s' = videoOr v rule s"
    by (cases v) (simp_all add: videoOr_def assms(2))
  consider (tab) "muteMethod rule = Some (TAB (MUTE_METHODS s))"
    | (vm) "muteMethod rule \<noteq> Some (TAB (MUTE_METHODS s))"
        "muteMethod rule = Some (VIDEO_MUTE (MUTE_METHODS s))"
    | (vv) "muteMethod rule \<noteq> Some (TAB (MUTE_METHODS s))"
        "muteMethod rule \<noteq> Some (VIDEO_MUTE (MUTE_METHODS s))"
        "muteMethod rule = Some (VIDEO_VOLUME (MUTE_METHODS s))"
    | (other) "muteMethod rule \<noteq> Some (TAB (MUTE_METHODS s))"
        "muteMethod rule \<noteq> Some (VIDEO_MUTE (MUTE_METHODS s))"
        "muteMethod rule \<noteq> Some (VIDEO_VOLUME (MUTE_METHODS s))"
    by blast
  then show ?thesis
  proof cases
    case tab
    then have "muteMethod rule = Some (TAB (MUTE_METHODS s'))"
      by (simp add: assms(1))
    from muteEffector_tab [OF this, of v] muteEffector_tab [OF tab, of v] show ?thesis
      by (simp add: assms)
  next
    case vm
    then have vm': "muteMethod rule \<noteq> Some (TAB (MUTE_METHODS s'))"
      "muteMethod rule = Some (VIDEO_MUTE (MUTE_METHODS s'))"
      by (simp_all add: assms(1))
    show ?thesis
    proof (cases "videoOr v rule s")
      case None
      then have "videoOr v rule s' = None"
        by (simp add: vo)
      from muteEffector_video_mute_None [OF vm' this] muteEffector_video_mute_None [OF vm None]
      show ?thesis
        by (simp add: assms)
    next
      case (Some y)
      then have "videoOr v rule s' = Some y"
        by (simp add: vo)
      from muteEffector_video_mute_Some [OF vm' this] muteEffector_video_mute_Some [OF vm Some]
      show ?thesis
        by (simp only: assms simp_thms)
    qed
  next
    case vv
    then have vv': "muteMethod rule \<noteq> Some (TAB (MUTE_METHODS s'))"
      "muteMethod rule \<noteq> Some (VIDEO_MUTE (MUTE_METHODS s'))"
      "muteMethod rule = Some (VIDEO_VOLUME (MUTE_METHODS s'))"
      by (simp_all add: assms(1))
    show ?thesis
    proof (cases "videoOr v rule s")
      case None
      then have "videoOr v rule s' = None"
        by (simp add: vo)
      from muteEffector_video_volume_None [OF vv' this]
        muteEffector_video_volume_None [OF vv None]
      show ?thesis
        by (simp add: assms)
    next
      case (Some y)
      then have "videoOr v rule s' = Some y"
        by (simp add: vo)
      from muteEffector_video_volume_Some [OF vv' this]
        muteEffector_video_volume_Some [OF vv Some]
      show ?thesis
        by (simp only: assms simp_thms)
    qed
  next
    case other
    then have "muteMethod rule \<noteq> Some (TAB (MUTE_METHODS s'))"
      "muteMethod rule \<noteq> Some (VIDEO_MUTE (MUTE_METHODS s'))"
      "muteMethod rule \<noteq> Some (VIDEO_VOLUME (MUTE_METHODS s'))"
      by (simp_all add: assms(1))
    from muteEffector_other [OF this, of v] muteEffector_other [OF other, of v] show ?thesis
      by (simp add: assms)
  qed
qed

text \<open>The page after \<open>mute\<close> on an engine that is not muted is the page after its effector.\<close>

lemma mute_page:
  assumes "\<not> muted s"
  shows "videos (mute rule v s) = videos (muteEffector rule v s)"
    and "volume (mute rule v s) = volume (muteEffector rule v s)"
    and "fillerAudio (mute rule v s) = fillerAudio (muteEffector rule v s)"
proof -
  define s' where
    "s' = s\<lparr> muted := True,
              statsMutes := (if collectStats s then Suc (statsMutes s) else statsMutes s) \<rparr>"
  have "MUTE_METHODS s' = MUTE_METHODS s" "getElement s' = getElement s"
    "videos s' = videos s" "volume s' = volume s" "fillerAudio s' = fillerAudio s"
    by (simp_all add: s'_def)
  note e = muteEffector_page [OF this, of rule v]
  have m: "mute rule v s =
             (if nonZero (unmuteDelay rule) \<and> unmuteTimeout (muteEffector rule v s') \<noteq> None
                 \<and> unmuteTimeout (muteEffector rule v s') \<noteq> Some 0
              then clearUnmuteTimeout rule (muteEffector rule v s')
              else muteEffector rule v s')"
    unfolding mute_def Let_def s'_def by (simp only: assms simp_thms if_True)
  show "videos (mute rule v s) = videos (muteEffector rule v s)"
    and "volume (mute rule v s) = volume (muteEffector rule v s)"
    and "fillerAudio (mute rule v s) = fillerAudio (muteEffector rule v s)"
    unfolding m using e by (simp_all add: clearUnmuteTimeout_page)
qed

text \<open>
  C7, as it holds. On an engine that is not muted, two calls of \<open>mute\<close> in a row
  perform the side effect once. The first call sets \<open>muted\<close>, adds one to the count of
  mutes if statistics are collected, and runs the effector of the rule's method once:
  for the tab method one message is sent and the page is left alone; for the video mute
  method the video, if one is found, is muted; for the video volume method the volume of
  the video, if it is found and has one, is saved and set to zero; for both video
  methods the filler audio is started, and its listeners put on the video, if there is
  filler audio and the video is playing; for any other method nothing is done. The
  second call changes nothing, and the engine is muted after both.
\<close>

theorem mute_twice_once:
  fixes s :: engine and rule :: AudioRule and v v' :: "nat option"
  defines "s2 \<equiv> mute rule v' (mute rule v s)"
    and "filler \<equiv> \<lambda>y. fillerAudio s \<noteq> None \<and> playing (Some (videos s y))"
  assumes idle: "\<not> muted s"
  shows "s2 = mute rule v s
         \<and> muted s2
         \<and> statsMutes s2 = (if collectStats s then Suc (statsMutes s) else statsMutes s)
         \<and> calls s2 =
             calls s @ (if muteMethod rule = Some (TAB (MUTE_METHODS s))
                        then [SendMute True] else [])
         \<and> (muteMethod rule = Some (TAB (MUTE_METHODS s)) \<longrightarrow>
               videos s2 = videos s \<and> volume s2 = volume s \<and> fillerAudio s2 = fillerAudio s)
         \<and> (muteMethod rule \<noteq> Some (TAB (MUTE_METHODS s))
              \<and> muteMethod rule = Some (VIDEO_MUTE (MUTE_METHODS s)) \<longrightarrow>
               volume s2 = volume s
               \<and> (case videoOr v rule s of
                      None \<Rightarrow> videos s2 = videos s \<and> fillerAudio s2 = fillerAudio s
                    | Some y \<Rightarrow>
                        videos s2 =
                          (videos s)(y := (videos s y)
                             \<lparr> vMuted := True,
                               fillerListeners := (fillerListeners (videos s y) \<or> filler y) \<rparr>)
                        \<and> fillerAudio s2 =
                            (if filler y
                             then map_option (\<lambda>a. a\<lparr> aPaused := False \<rparr>) (fillerAudio s)
                             else fillerAudio s)))
         \<and> (muteMethod rule \<noteq> Some (TAB (MUTE_METHODS s))
              \<and> muteMethod rule \<noteq> Some (VIDEO_MUTE (MUTE_METHODS s))
              \<and> muteMethod rule = Some (VIDEO_VOLUME (MUTE_METHODS s)) \<longrightarrow>
               (case videoOr v rule s of
                  None \<Rightarrow>
                    videos s2 = videos s \<and> volume s2 = volume s \<and> fillerAudio s2 = fillerAudio s
                | Some y \<Rightarrow>
                    volume s2 =
                      (case vVolume (videos s y) of None \<Rightarrow> volume s | Some vol \<Rightarrow> vol)
                    \<and> videos s2 =
                        (videos s)(y := (videos s y)
                           \<lparr> vVolume := (case vVolume (videos s y) of
                                          None \<Rightarrow> None | Some vol \<Rightarrow> Some 0),
                             fillerListeners := (fillerListeners (videos s y) \<or> filler y) \<rparr>)
                    \<and> fillerAudio s2 =
                        (if filler y
                         then map_option (\<lambda>a. a\<lparr> aPaused := False \<rparr>) (fillerAudio s)
                         else fillerAudio s)))
         \<and> (muteMethod rule \<noteq> Some (TAB (MUTE_METHODS s))
              \<and> muteMethod rule \<noteq> Some (VIDEO_MUTE (MUTE_METHODS s))
              \<and> muteMethod rule \<noteq> Some (VIDEO_VOLUME (MUTE_METHODS s)) \<longrightarrow>
               videos s2 = videos s \<and> volume s2 = volume s \<and> fillerAudio s2 = fillerAudio s)"
proof -
  have s2: "s2 = mute rule v s"
    by (simp add: s2_def mute_idempotent)
  note p = mute_page [OF idle, of rule v]
  have a: "muted s2" "statsMutes s2 = (if collectStats s then Suc (statsMutes s) else statsMutes s)"
    "calls s2 = calls s @ (if muteMethod rule = Some (TAB (MUTE_METHODS s))
                           then [SendMute True] else [])"
    using idle by (simp_all add: s2 mute_muted mute_stats mute_calls)
  have t: "videos s2 = videos s \<and> volume s2 = volume s \<and> fillerAudio s2 = fillerAudio s"
    if "muteMethod rule = Some (TAB (MUTE_METHODS s))"
    using that by (simp add: s2 p muteEffector_tab)
  have m: "volume s2 = volume s
           \<and> (case videoOr v rule s of
                  None \<Rightarrow> videos s2 = videos s \<and> fillerAudio s2 = fillerAudio s
                | Some y \<Rightarrow>
                    videos s2 =
                      (videos s)(y := (videos s y)
                         \<lparr> vMuted := True,
                           fillerListeners := (fillerListeners (videos s y) \<or> filler y) \<rparr>)
                    \<and> fillerAudio s2 =
                        (if filler y
                         then map_option (\<lambda>a. a\<lparr> aPaused := False \<rparr>) (fillerAudio s)
                         else fillerAudio s))"
    if "muteMethod rule \<noteq> Some (TAB (MUTE_METHODS s))"
      and "muteMethod rule = Some (VIDEO_MUTE (MUTE_METHODS s))"
  proof (cases "videoOr v rule s")
    case None
    with that show ?thesis
      by (simp add: s2 p muteEffector_video_mute_None)
  next
    case (Some y)
    with muteEffector_video_mute_Some [OF that Some] show ?thesis
      by (simp add: s2 p filler_def)
  qed
  have vv: "(case videoOr v rule s of
               None \<Rightarrow>
                 videos s2 = videos s \<and> volume s2 = volume s \<and> fillerAudio s2 = fillerAudio s
             | Some y \<Rightarrow>
                 volume s2 =
                   (case vVolume (videos s y) of None \<Rightarrow> volume s | Some vol \<Rightarrow> vol)
                 \<and> videos s2 =
                     (videos s)(y := (videos s y)
                        \<lparr> vVolume := (case vVolume (videos s y) of
                                       None \<Rightarrow> None | Some vol \<Rightarrow> Some 0),
                          fillerListeners := (fillerListeners (videos s y) \<or> filler y) \<rparr>)
                 \<and> fillerAudio s2 =
                     (if filler y
                      then map_option (\<lambda>a. a\<lparr> aPaused := False \<rparr>) (fillerAudio s)
                      else fillerAudio s))"
    if "muteMethod rule \<noteq> Some (TAB (MUTE_METHODS s))"
      and "muteMethod rule \<noteq> Some (VIDEO_MUTE (MUTE_METHODS s))"
      and "muteMethod rule = Some (VIDEO_VOLUME (MUTE_METHODS s))"
  proof (cases "videoOr v rule s")
    case None
    with that show ?thesis
      by (simp add: s2 p muteEffector_video_volume_None)
  next
    case (Some y)
    with muteEffector_video_volume_Some [OF that Some] show ?thesis
      by (simp add: s2 p filler_def)
  qed
  have o: "videos s2 = videos s \<and> volume s2 = volume s \<and> fillerAudio s2 = fillerAudio s"
    if "muteMethod rule \<noteq> Some (TAB (MUTE_METHODS s))"
      and "muteMethod rule \<noteq> Some (VIDEO_MUTE (MUTE_METHODS s))"
      and "muteMethod rule \<noteq> Some (VIDEO_VOLUME (MUTE_METHODS s))"
    using that by (simp add: s2 p muteEffector_other)
  from s2 a t m vv o show ?thesis
    by blast
qed

lemma mute_video_example:
  "\<not> vMuted (videos videoEngine 3) \<and> fillerAudio videoEngine = Some \<lparr> aPaused = True, aCurrentTime = 0 \<rparr>
   \<and> vMuted (videos (mute videoRule None videoEngine) 3)
   \<and> fillerListeners (videos (mute videoRule None videoEngine) 3)
   \<and> fillerAudio (mute videoRule None videoEngine) = Some \<lparr> aPaused = False, aCurrentTime = 0 \<rparr>"
  by (simp add: mute_def muteEffector_def playFillerAudio_def videoAt_def videoOr_def playing_def
      nonZero_def Let_def videoEngine_def videoRule_def playingVideo_def idleEngine_def noRule_def)

theorem mute_twice_once_witness:
  "\<not> muted idleEngine
   \<and> mute (delayRule 500) None (mute (delayRule 500) None idleEngine)
       = mute (delayRule 500) None idleEngine
   \<and> muted (mute (delayRule 500) None (mute (delayRule 500) None idleEngine))
   \<and> statsMutes (mute (delayRule 500) None (mute (delayRule 500) None idleEngine)) = 1
   \<and> calls (mute (delayRule 500) None (mute (delayRule 500) None idleEngine))
       = [SendMute True]
   \<and> \<not> muted videoEngine
   \<and> mute videoRule None (mute videoRule None videoEngine) = mute videoRule None videoEngine
   \<and> vMuted (videos (mute videoRule None (mute videoRule None videoEngine)) 3)
   \<and> fillerAudio (mute videoRule None (mute videoRule None videoEngine))
       = Some \<lparr> aPaused = False, aCurrentTime = 0 \<rparr>
   \<and> calls (mute videoRule None (mute videoRule None videoEngine)) = []"
proof -
  have h: "\<not> muted idleEngine" "\<not> muted videoEngine"
    by (simp_all add: idleEngine_def videoEngine_def)
  have c: "collectStats idleEngine" "statsMutes idleEngine = 0" "calls idleEngine = []"
    "muteMethod (delayRule 500) = Some (TAB (MUTE_METHODS idleEngine))"
    by (simp_all add: idleEngine_def delayRule_def)
  have d: "calls videoEngine = []"
    "muteMethod videoRule \<noteq> Some (TAB (MUTE_METHODS videoEngine))"
    by (simp_all add: videoEngine_def idleEngine_def videoRule_def)
  note t = mute_twice_once [OF h(1), of "delayRule 500" None None]
  note u = mute_twice_once [OF h(2), of videoRule None None]
  have a: "mute (delayRule 500) None (mute (delayRule 500) None idleEngine)
             = mute (delayRule 500) None idleEngine"
    using t by (rule conjunct1)
  have a2: "muted (mute (delayRule 500) None (mute (delayRule 500) None idleEngine))"
    using t by blast
  have a3: "statsMutes (mute (delayRule 500) None (mute (delayRule 500) None idleEngine)) = 1"
    using t [THEN conjunct2, THEN conjunct2, THEN conjunct1] by (simp add: c)
  have a4: "calls (mute (delayRule 500) None (mute (delayRule 500) None idleEngine))
              = [SendMute True]"
    using t [THEN conjunct2, THEN conjunct2, THEN conjunct2, THEN conjunct1] by (simp add: c)
  have b: "mute videoRule None (mute videoRule None videoEngine) = mute videoRule None videoEngine"
    using u by (rule conjunct1)
  have b2: "calls (mute videoRule None (mute videoRule None videoEngine)) = []"
    using u [THEN conjunct2, THEN conjunct2, THEN conjunct2, THEN conjunct1] by (simp add: d)
  from b mute_video_example
  have e: "vMuted (videos (mute videoRule None (mute videoRule None videoEngine)) 3)"
    "fillerAudio (mute videoRule None (mute videoRule None videoEngine))
       = Some \<lparr> aPaused = False, aCurrentTime = 0 \<rparr>"
    by simp_all
  from h a a2 a3 a4 b b2 e show ?thesis
    by blast
qed

text \<open>
  C7 as stated fails on an engine that is already muted: there the two calls perform
  the side effect not once but never. Statistics are collected and the rule mutes the
  tab, yet the count of mutes and the messages sent are as before.
\<close>

theorem mute_twice_when_muted:
  "muted mutedEngine \<and> collectStats mutedEngine
   \<and> muteMethod (delayRule 500) = Some (TAB (MUTE_METHODS mutedEngine))
   \<and> statsMutes (mute (delayRule 500) None (mute (delayRule 500) None mutedEngine))
       = statsMutes mutedEngine
   \<and> calls (mute (delayRule 500) None (mute (delayRule 500) None mutedEngine))
       = calls mutedEngine"
  by (simp add: mute_def nonZero_def delayRule_def mutedEngine_def idleEngine_def)

section \<open>Properties of rule initialisation\<close>

lemma initRule_inapplicable_eq:
  "inapplicable s rule \<Longrightarrow> initRule ruleId rule s = (rule\<lparr> disabled := Some True \<rparr>, s)"
  by (simp add: initRule_def isDisabled_def isTrue_def)

lemma initRule_disabled_eq:
  "isDisabled rule \<Longrightarrow> initRule ruleId rule s = (rule\<lparr> disabled := Some True \<rparr>, s)"
  by (simp add: initRule_def isDisabled_def isTrue_def)

text \<open>
  C9, as it holds. A rule without a mode, or of mode \<open>element\<close> or \<open>elementChild\<close>
  without a tag name, or for iframes only on a page that is not an iframe, or for pages
  that are not iframes on a page that is one, is disabled after \<open>initRule\<close>, and
  \<open>initRule\<close> leaves the engine as it was: nothing is added to the enabled rules and
  nothing is taken from them, so the rule is not among them if its id was not there
  before the call.
\<close>

theorem initRule_disables_inapplicable:
  assumes "mode rule = None
           \<or> ((mode rule = Some ''element'' \<or> mode rule = Some ''elementChild'')
               \<and> (tagName rule = None \<or> tagName rule = Some []))
           \<or> (iframe rule = Some True \<and> \<not> filterIframe s)
           \<or> (iframe rule = Some False \<and> filterIframe s)"
  shows "disabled (fst (initRule ruleId rule s)) = Some True
         \<and> snd (initRule ruleId rule s) = s
         \<and> (ruleId \<notin> set (enabledRuleIds s)
              \<longrightarrow> ruleId \<notin> set (enabledRuleIds (snd (initRule ruleId rule s))))"
proof -
  from assms have "inapplicable s rule"
    by (auto simp: inapplicable_def truthy_def)
  then show ?thesis
    by (simp add: initRule_inapplicable_eq)
qed

theorem initRule_disables_inapplicable_witness:
  "mode noRule = None
   \<and> 0 \<notin> set (enabledRuleIds idleEngine)
   \<and> disabled (fst (initRule 0 noRule idleEngine)) = Some True
   \<and> snd (initRule 0 noRule idleEngine) = idleEngine
   \<and> 0 \<notin> set (enabledRuleIds (snd (initRule 0 noRule idleEngine)))"
proof -
  have h: "mode noRule = None"
    by (simp add: noRule_def)
  have e: "0 \<notin> set (enabledRuleIds idleEngine)"
    by (simp add: idleEngine_def)
  show ?thesis
    using h initRule_disables_inapplicable [of noRule idleEngine 0] e
    by simp
qed

text \<open>
  The same for the loop of the constructor: the position of such a rule is not among
  the enabled rules after all rules of the site have been initialised.
\<close>

lemma initMode_engine:
  "rules (snd (initMode ruleId rule s)) = rules s"
  "filterIframe (snd (initMode ruleId rule s)) = filterIframe s"
  "enabledRuleIds (snd (initMode ruleId rule s)) = enabledRuleIds s"
  by (simp_all add: initMode_def Let_def)

lemma enableRule_engine:
  "rules (enableRule ruleId rule s) = rules s"
  "filterIframe (enableRule ruleId rule s) = filterIframe s"
  "enabledRuleIds (enableRule ruleId rule s) = enabledRuleIds s @ [ruleId]"
  by (simp_all add: enableRule_def Let_def)

lemma initRule_cases:
  obtains "initRule ruleId rule s = (rule\<lparr> disabled := Some True \<rparr>, s)"
  | r2 s1 where "initRule ruleId rule s = (r2, s1)"
      and "initMode ruleId (ruleDefaults s rule) s = (r2, s1)" and "isDisabled r2"
  | r2 s1 where "initRule ruleId rule s = (r2, enableRule ruleId r2 s1)"
      and "initMode ruleId (ruleDefaults s rule) s = (r2, s1)" and "\<not> isDisabled r2"
proof (cases "inapplicable s rule \<or> isDisabled rule")
  case True
  then have "initRule ruleId rule s = (rule\<lparr> disabled := Some True \<rparr>, s)"
    by (auto simp: initRule_inapplicable_eq initRule_disabled_eq)
  then show ?thesis by (rule that(1))
next
  case False
  obtain r2 s1 where im: "initMode ruleId (ruleDefaults s rule) s = (r2, s1)"
    by (cases "initMode ruleId (ruleDefaults s rule) s")
  show ?thesis
  proof (cases "isDisabled r2")
    case True
    with False im have "initRule ruleId rule s = (r2, s1)"
      by (simp add: initRule_def)
    then show ?thesis using im True by (rule that(2))
  next
    case d: False
    with False im have "initRule ruleId rule s = (r2, enableRule ruleId r2 s1)"
      by (simp add: initRule_def)
    then show ?thesis using im d by (rule that(3))
  qed
qed

lemma initRule_engine:
  "rules (snd (initRule ruleId rule s)) = rules s"
  "filterIframe (snd (initRule ruleId rule s)) = filterIframe s"
  "set (enabledRuleIds (snd (initRule ruleId rule s))) \<subseteq> insert ruleId (set (enabledRuleIds s))"
proof -
  show "rules (snd (initRule ruleId rule s)) = rules s"
  proof (cases rule: initRule_cases [of ruleId rule s])
    case 1
    then show ?thesis by simp
  next
    case (2 r2 s1)
    with initMode_engine(1) [of ruleId "ruleDefaults s rule" s] show ?thesis by simp
  next
    case (3 r2 s1)
    with initMode_engine(1) [of ruleId "ruleDefaults s rule" s] show ?thesis
      by (simp add: enableRule_engine)
  qed
  show "filterIframe (snd (initRule ruleId rule s)) = filterIframe s"
  proof (cases rule: initRule_cases [of ruleId rule s])
    case 1
    then show ?thesis by simp
  next
    case (2 r2 s1)
    with initMode_engine(2) [of ruleId "ruleDefaults s rule" s] show ?thesis by simp
  next
    case (3 r2 s1)
    with initMode_engine(2) [of ruleId "ruleDefaults s rule" s] show ?thesis
      by (simp add: enableRule_engine)
  qed
  show "set (enabledRuleIds (snd (initRule ruleId rule s))) \<subseteq> insert ruleId (set (enabledRuleIds s))"
  proof (cases rule: initRule_cases [of ruleId rule s])
    case 1
    then show ?thesis by auto
  next
    case (2 r2 s1)
    with initMode_engine(3) [of ruleId "ruleDefaults s rule" s] show ?thesis by auto
  next
    case (3 r2 s1)
    with initMode_engine(3) [of ruleId "ruleDefaults s rule" s] show ?thesis
      by (auto simp: enableRule_engine)
  qed
qed

lemma initRuleAt_same:
  assumes "toSettle i s"
  shows "settled i (initRuleAt i s)"
proof -
  from assms have "initRule (int i) (rules s ! i) s = ((rules s ! i)\<lparr> disabled := Some True \<rparr>, s)"
    by (auto simp: toSettle_def initRule_inapplicable_eq initRule_disabled_eq)
  with assms show ?thesis
    by (simp add: initRuleAt_def settled_def toSettle_def isDisabled_def isTrue_def)
qed

lemma initRuleAt_other:
  assumes "j \<noteq> i"
  shows "toSettle i s \<Longrightarrow> toSettle i (initRuleAt j s)"
    and "settled i s \<Longrightarrow> settled i (initRuleAt j s)"
proof -
  obtain r s1 where eq: "initRule (int j) (rules s ! j) s = (r, s1)"
    by (cases "initRule (int j) (rules s ! j) s")
  from initRule_engine [of "int j" "rules s ! j" s] eq
  have k: "rules s1 = rules s" "filterIframe s1 = filterIframe s"
    "set (enabledRuleIds s1) \<subseteq> insert (int j) (set (enabledRuleIds s))"
    by simp_all
  have a: "initRuleAt j s = s1\<lparr> rules := (rules s1)[j := r] \<rparr>"
    by (simp add: initRuleAt_def eq)
  show "toSettle i s \<Longrightarrow> toSettle i (initRuleAt j s)"
    using assms k by (auto simp: a toSettle_def inapplicable_def)
  show "settled i s \<Longrightarrow> settled i (initRuleAt j s)"
    using assms k by (auto simp: a settled_def)
qed

lemma settled_toSettle: "settled i s \<Longrightarrow> toSettle i s"
  by (simp add: settled_def toSettle_def)

lemma initRuleAt_settled: "settled i s \<Longrightarrow> settled i (initRuleAt j s)"
  by (cases "j = i") (auto simp: initRuleAt_other initRuleAt_same settled_toSettle)

lemma fold_initRuleAt_settled: "settled i s \<Longrightarrow> settled i (fold initRuleAt js s)"
  by (induction js arbitrary: s) (simp_all add: initRuleAt_settled)

lemma fold_initRuleAt_toSettle:
  "toSettle i s \<Longrightarrow> i \<in> set js \<Longrightarrow> settled i (fold initRuleAt js s)"
proof (induction js arbitrary: s)
  case Nil
  then show ?case by simp
next
  case (Cons j js)
  show ?case
  proof (cases "j = i")
    case True
    with Cons.prems show ?thesis
      by (simp add: fold_initRuleAt_settled initRuleAt_same)
  next
    case False
    with Cons.prems have "toSettle i (initRuleAt j s)" "i \<in> set js"
      by (simp_all add: initRuleAt_other)
    then show ?thesis
      by (simp add: Cons.IH)
  qed
qed

lemma initRules_disables_inapplicable:
  assumes "i < length (rules s)" and "inapplicable s (rules s ! i)"
    and "int i \<notin> set (enabledRuleIds s)"
  shows "disabled (rules (initRules s) ! i) = Some True"
    and "int i \<notin> set (enabledRuleIds (initRules s))"
proof -
  from assms have "toSettle i s"
    by (simp add: toSettle_def)
  moreover from assms have "i \<in> set [0 ..< length (rules s)]"
    by simp
  ultimately have "settled i (initRules s)"
    unfolding initRules_def by (rule fold_initRuleAt_toSettle)
  then show "disabled (rules (initRules s) ! i) = Some True"
    and "int i \<notin> set (enabledRuleIds (initRules s))"
    by (simp_all add: settled_def isDisabled_def isTrue_def)
qed

text \<open>
  A rule of mode \<open>dynamic\<close> that the first test lets through and that is not disabled
  already comes out of \<open>initRule\<close> with \<open>disabled\<close> as it was, and its position is
  added to the enabled rules, whether a target mode is configured or not.
\<close>

lemma initRule_dynamic:
  assumes "mode rule = Some ''dynamic''" and "\<not> inapplicable s rule" and "\<not> isDisabled rule"
  shows "disabled (fst (initRule ruleId rule s)) = disabled rule"
    and "enabledRuleIds (snd (initRule ruleId rule s)) = enabledRuleIds s @ [ruleId]"
proof -
  have m: "mode (ruleDefaults s rule) = Some ''dynamic''"
    "disabled (ruleDefaults s rule) = disabled rule"
    using assms(1)
    by (simp_all add: ruleDefaults_def initDisplaySelector_def Let_def split: option.splits)
  then have i: "initMode ruleId (ruleDefaults s rule) s
                  = ((ruleDefaults s rule)\<lparr> dynamic' := Some True \<rparr>, s)"
    by (simp add: initMode_def initDynamicRule_def)
  show "disabled (fst (initRule ruleId rule s)) = disabled rule"
    using assms m by (simp add: initRule_def i isDisabled_def)
  show "enabledRuleIds (snd (initRule ruleId rule s)) = enabledRuleIds s @ [ruleId]"
    using assms m by (simp add: initRule_def i isDisabled_def enableRule_engine)
qed

text \<open>
  C2. The rule of mode \<open>dynamic\<close> without a target mode, on a page that is not an
  iframe: after \<open>initRule\<close> it is not disabled, and its position is among the enabled
  rules. The same after the loop of the constructor over a site with this one rule.
\<close>

theorem initRule_dynamic_stays_enabled:
  "dynamicTargetMode dynamicRule = None
   \<and> disabled (fst (initRule 0 dynamicRule idleEngine)) = None
   \<and> enabledRuleIds (snd (initRule 0 dynamicRule idleEngine)) = [0]
   \<and> map disabled (rules (initRules (idleEngine\<lparr> rules := [dynamicRule] \<rparr>))) = [None]
   \<and> enabledRuleIds (initRules (idleEngine\<lparr> rules := [dynamicRule] \<rparr>)) = [0]"
proof -
  have m: "mode dynamicRule = Some ''dynamic''" "\<not> isDisabled dynamicRule"
    "disabled dynamicRule = None" "dynamicTargetMode dynamicRule = None"
    by (simp_all add: dynamicRule_def noRule_def isDisabled_def isTrue_def)
  have n: "\<not> inapplicable s dynamicRule" if "\<not> filterIframe s" for s
    using that by (simp add: inapplicable_def dynamicRule_def noRule_def)
  have e: "\<not> filterIframe idleEngine" "enabledRuleIds idleEngine = []"
    by (simp_all add: idleEngine_def)
  let ?s = "idleEngine\<lparr> rules := [dynamicRule] \<rparr>"
  have e': "\<not> filterIframe ?s" "enabledRuleIds ?s = []"
    by (simp_all add: e)
  obtain r s1 where eq: "initRule 0 dynamicRule ?s = (r, s1)"
    by (cases "initRule 0 dynamicRule ?s")
  from initRule_engine(1) [of 0 dynamicRule ?s] eq have k: "rules s1 = [dynamicRule]"
    by simp
  have a: "initRules ?s = s1\<lparr> rules := [r] \<rparr>"
    by (simp add: initRules_def initRuleAt_def eq k)
  from initRule_dynamic [OF m(1) n [OF e'(1)] m(2), of 0] eq
  have b: "disabled r = None" "enabledRuleIds s1 = [0]"
    by (simp_all add: m e)
  show ?thesis
    using initRule_dynamic [OF m(1) n [OF e(1)] m(2), of 0]
    by (simp add: m e a b)
qed

text \<open>
  The page of one rule of mode \<open>dynamic\<close> with the target mode \<open>element\<close>: the loop of
  the constructor sets the rule's defaults and enables it.
\<close>

lemma elementTargetPage_eq:
  "elementTargetPage =
     idleEngine\<lparr> rules := [elementTargetRule\<lparr> dynamic' := Some True,
                                   filterSubtitles := Some True, muteMethod := Some 0,
                                   showSubtitles := Some 0,
                                   videoSelector := Some ''video'' \<rparr>],
                 enabledRuleIds := [0] \<rparr>"
  by (simp add: elementTargetPage_def initRules_def initRuleAt_def initRule_def
      inapplicable_def isDisabled_def isTrue_def initMode_def initDynamicRule_def
      ruleDefaults_def initDisplaySelector_def orDefault_def enableRule_def Let_def
      idleEngine_def elementTargetRule_def noRule_def)

lemma retargetedRule_inapplicable:
  "mode retargetedRule = Some ''element''" "tagName retargetedRule = None"
  "inapplicable elementTargetPage retargetedRule"
  by (simp_all add: retargetedRule_def elementTargetPage_eq inapplicable_def truthy_def
      elementTargetRule_def noRule_def)

text \<open>
  When the element that carries the trigger text is added to that page,
  \<open>supportedDynamicNode\<close> gives the rule its target mode and calls \<open>initRule\<close> for it.
\<close>

lemma supportedDynamicNode_retargets:
  "supportedDynamicNode loadingElement 0 elementTargetPage =
     Inr ((snd (initRule 0 retargetedRule elementTargetPage))
            \<lparr> rules := [fst (initRule 0 retargetedRule elementTargetPage)] \<rparr>)"
proof -
  have r: "rules elementTargetPage ! 0 =
             elementTargetRule\<lparr> dynamic' := Some True, filterSubtitles := Some True,
                                muteMethod := Some 0, showSubtitles := Some 0,
                                videoSelector := Some ''video'' \<rparr>"
    by (simp add: elementTargetPage_eq)
  have k: "rules (snd (initRule 0 retargetedRule elementTargetPage)) = rules elementTargetPage"
    by (rule initRule_engine(1))
  have t: "triggers loadingElement (rules elementTargetPage ! 0)"
    by (simp add: r triggers_def loadingElement_def elementTargetRule_def)
  have p: "(rules elementTargetPage ! 0)
             \<lparr> mode := dynamicTargetMode (rules elementTargetPage ! 0) \<rparr>
             \<lparr> parentSelectorAll :=
                 Some (toLowerCase ''DIV'' @ ''.'' @ joinWith ''.'' [''a'', ''b''] @ '' ''
                       @ (case parentSelectorAll (rules elementTargetPage ! 0) of
                            None \<Rightarrow> ''undefined'' | Some p \<Rightarrow> p)) \<rparr>
           = retargetedRule"
    unfolding retargetedRule_def
    by (simp add: r elementTargetRule_def noRule_def toLowerCase_def toLowerChar_def
        joinWith_def)
  have l: "(rules elementTargetPage)[0 := a] = [a]" for a
    by (simp add: elementTargetPage_eq)
  show ?thesis
    unfolding supportedDynamicNode_def Let_def
    using t p k l
    by (cases "initRule 0 retargetedRule elementTargetPage")
       (simp add: loadingElement_def)
qed

text \<open>
  C9 as stated fails for a rule whose id is among the enabled rules already. The rule
  of mode \<open>dynamic\<close> with the target mode \<open>element\<close> is enabled by the constructor. When
  its trigger arrives it has the mode \<open>element\<close> and no tag name, and \<open>initRule\<close> runs
  for it again: the rule is disabled, and its id is among the enabled rules after the
  call as before it, since \<open>initRule\<close> takes no id out.
\<close>

theorem initRule_keeps_enabled_id:
  "mode retargetedRule = Some ''element'' \<and> tagName retargetedRule = None
   \<and> enabledRuleIds elementTargetPage = [0]
   \<and> disabled (fst (initRule 0 retargetedRule elementTargetPage)) = Some True
   \<and> 0 \<in> set (enabledRuleIds (snd (initRule 0 retargetedRule elementTargetPage)))"
proof -
  have e: "enabledRuleIds elementTargetPage = [0]"
    by (simp add: elementTargetPage_eq)
  from retargetedRule_inapplicable(3)
  have "initRule 0 retargetedRule elementTargetPage
          = (retargetedRule\<lparr> disabled := Some True \<rparr>, elementTargetPage)"
    by (rule initRule_inapplicable_eq)
  with e retargetedRule_inapplicable(1,2) show ?thesis
    by simp
qed


section \<open>Properties of the choice of a text track\<close>

lemma currentScore_le_perfect:
  "truthy (videoCueKind rule) \<Longrightarrow> currentScore rule ok t \<le> perfectScore rule ok"
  by (simp add: currentScore_def perfectScore_def)

lemma scanTracks_None:
  "scanTracks rule ok ts i st = None \<longleftrightarrow> \<not> foundCues st \<and> (\<forall>t \<in> set ts. \<not> considered rule t)"
  by (induction ts arbitrary: i st) (simp_all del: not_None_eq)

text \<open>
  What the loop returns, in terms of the tracks still to scan: the first perfect track
  among them; or, where none of them is perfect, the best so far if none of them beats
  it, else the first of them that beats the best so far and all before it and is not
  beaten after it.
\<close>

lemma scanTracks_Some:
  assumes "scanTracks rule ok ts i st = Some r"
  shows "(\<exists>pre t post. ts = pre @ t # post \<and> r = i + length pre \<and> considered rule t
            \<and> currentScore rule ok t = perfectScore rule ok
            \<and> (\<forall>x \<in> set pre. considered rule x \<longrightarrow> currentScore rule ok x \<noteq> perfectScore rule ok))
         \<or> ((\<forall>x \<in> set ts. considered rule x \<longrightarrow> currentScore rule ok x \<noteq> perfectScore rule ok)
            \<and> ((foundCues st \<and> r = bestIndex st
                 \<and> (\<forall>x \<in> set ts. considered rule x \<longrightarrow> currentScore rule ok x \<le> bestScore st))
                \<or> (\<exists>pre t post. ts = pre @ t # post \<and> r = i + length pre \<and> considered rule t
                      \<and> (foundCues st \<longrightarrow> bestScore st < currentScore rule ok t)
                      \<and> (\<forall>x \<in> set pre. considered rule x \<longrightarrow> currentScore rule ok x < currentScore rule ok t)
                      \<and> (\<forall>x \<in> set post. considered rule x \<longrightarrow> currentScore rule ok x \<le> currentScore rule ok t))))"
    (is "?early ts i \<or> (?none ts \<and> (?stay ts st \<or> ?later ts i st))")
  using assms
proof (induction ts arbitrary: i st)
  case Nil
  then show ?case by (simp split: if_splits)
next
  case (Cons h ts)
  let ?P = "perfectScore rule ok"
  let ?sc = "currentScore rule ok"
  show ?case
  proof (cases "considered rule h")
    case False
    with Cons.prems have "scanTracks rule ok ts (Suc i) st = Some r" by simp
    from Cons.IH [OF this] show ?thesis
    proof (elim disjE conjE exE)
      fix pre t post
      assume "ts = pre @ t # post" "r = Suc i + length pre" "considered rule t" "?sc t = ?P"
        "\<forall>x \<in> set pre. considered rule x \<longrightarrow> ?sc x \<noteq> ?P"
      with False have "h # ts = (h # pre) @ t # post \<and> r = i + length (h # pre) \<and> considered rule t
        \<and> ?sc t = ?P \<and> (\<forall>x \<in> set (h # pre). considered rule x \<longrightarrow> ?sc x \<noteq> ?P)"
        by simp
      then show ?thesis by blast
    next
      assume "?none ts" "foundCues st" "r = bestIndex st"
        "\<forall>x \<in> set ts. considered rule x \<longrightarrow> ?sc x \<le> bestScore st"
      with False show ?thesis by simp
    next
      fix pre t post
      assume n: "?none ts" and "ts = pre @ t # post" "r = Suc i + length pre" "considered rule t"
        "foundCues st \<longrightarrow> bestScore st < ?sc t"
        "\<forall>x \<in> set pre. considered rule x \<longrightarrow> ?sc x < ?sc t"
        "\<forall>x \<in> set post. considered rule x \<longrightarrow> ?sc x \<le> ?sc t"
      with False have "h # ts = (h # pre) @ t # post \<and> r = i + length (h # pre) \<and> considered rule t
        \<and> (foundCues st \<longrightarrow> bestScore st < ?sc t)
        \<and> (\<forall>x \<in> set (h # pre). considered rule x \<longrightarrow> ?sc x < ?sc t)
        \<and> (\<forall>x \<in> set post. considered rule x \<longrightarrow> ?sc x \<le> ?sc t)"
        by simp
      then have "?later (h # ts) i st" by blast
      moreover from n False have "?none (h # ts)" by simp
      ultimately show ?thesis by blast
    qed
  next
    case c: True
    show ?thesis
    proof (cases "?sc h = ?P")
      case True
      with c Cons.prems have "h # ts = [] @ h # ts \<and> r = i + length ([] :: textTrack list)
        \<and> considered rule h \<and> ?sc h = ?P
        \<and> (\<forall>x \<in> set ([] :: textTrack list). considered rule x \<longrightarrow> ?sc x \<noteq> ?P)"
        by simp
      then have "?early (h # ts) i" by blast
      then show ?thesis by blast
    next
      case np: False
      show ?thesis
      proof (cases "bestScore st < ?sc h \<or> \<not> foundCues st")
        case u: True
        let ?st = "\<lparr> bestIndex = i, bestScore = ?sc h, foundCues = True \<rparr>"
        from c np u Cons.prems have "scanTracks rule ok ts (Suc i) ?st = Some r" by auto
        from Cons.IH [OF this] show ?thesis
        proof (elim disjE conjE exE)
          fix pre t post
          assume "ts = pre @ t # post" "r = Suc i + length pre" "considered rule t" "?sc t = ?P"
            "\<forall>x \<in> set pre. considered rule x \<longrightarrow> ?sc x \<noteq> ?P"
          with np have "h # ts = (h # pre) @ t # post \<and> r = i + length (h # pre)
            \<and> considered rule t \<and> ?sc t = ?P
            \<and> (\<forall>x \<in> set (h # pre). considered rule x \<longrightarrow> ?sc x \<noteq> ?P)"
            by simp
          then show ?thesis by blast
        next
          assume n: "?none ts" and "foundCues ?st" "r = bestIndex ?st"
            "\<forall>x \<in> set ts. considered rule x \<longrightarrow> ?sc x \<le> bestScore ?st"
          with c u have "h # ts = [] @ h # ts \<and> r = i + length ([] :: textTrack list)
            \<and> considered rule h \<and> (foundCues st \<longrightarrow> bestScore st < ?sc h)
            \<and> (\<forall>x \<in> set ([] :: textTrack list). considered rule x \<longrightarrow> ?sc x < ?sc h)
            \<and> (\<forall>x \<in> set ts. considered rule x \<longrightarrow> ?sc x \<le> ?sc h)"
            by auto
          then have "?later (h # ts) i st" by blast
          moreover from n np have "?none (h # ts)" by simp
          ultimately show ?thesis by blast
        next
          fix pre t post
          assume n: "?none ts" and "ts = pre @ t # post" "r = Suc i + length pre"
            "considered rule t" "foundCues ?st \<longrightarrow> bestScore ?st < ?sc t"
            "\<forall>x \<in> set pre. considered rule x \<longrightarrow> ?sc x < ?sc t"
            "\<forall>x \<in> set post. considered rule x \<longrightarrow> ?sc x \<le> ?sc t"
          with u have "h # ts = (h # pre) @ t # post \<and> r = i + length (h # pre)
            \<and> considered rule t \<and> (foundCues st \<longrightarrow> bestScore st < ?sc t)
            \<and> (\<forall>x \<in> set (h # pre). considered rule x \<longrightarrow> ?sc x < ?sc t)
            \<and> (\<forall>x \<in> set post. considered rule x \<longrightarrow> ?sc x \<le> ?sc t)"
            by auto
          then have "?later (h # ts) i st" by blast
          moreover from n np have "?none (h # ts)" by simp
          ultimately show ?thesis by blast
        qed
      next
        case k: False
        from c np k Cons.prems have "scanTracks rule ok ts (Suc i) st = Some r" by auto
        from Cons.IH [OF this] show ?thesis
        proof (elim disjE conjE exE)
          fix pre t post
          assume "ts = pre @ t # post" "r = Suc i + length pre" "considered rule t" "?sc t = ?P"
            "\<forall>x \<in> set pre. considered rule x \<longrightarrow> ?sc x \<noteq> ?P"
          with np have "h # ts = (h # pre) @ t # post \<and> r = i + length (h # pre)
            \<and> considered rule t \<and> ?sc t = ?P
            \<and> (\<forall>x \<in> set (h # pre). considered rule x \<longrightarrow> ?sc x \<noteq> ?P)"
            by simp
          then show ?thesis by blast
        next
          assume "?none ts" "foundCues st" "r = bestIndex st"
            "\<forall>x \<in> set ts. considered rule x \<longrightarrow> ?sc x \<le> bestScore st"
          with np k show ?thesis by auto
        next
          fix pre t post
          assume n: "?none ts" and "ts = pre @ t # post" "r = Suc i + length pre"
            "considered rule t" "foundCues st \<longrightarrow> bestScore st < ?sc t"
            "\<forall>x \<in> set pre. considered rule x \<longrightarrow> ?sc x < ?sc t"
            "\<forall>x \<in> set post. considered rule x \<longrightarrow> ?sc x \<le> ?sc t"
          with k have "h # ts = (h # pre) @ t # post \<and> r = i + length (h # pre)
            \<and> considered rule t \<and> (foundCues st \<longrightarrow> bestScore st < ?sc t)
            \<and> (\<forall>x \<in> set (h # pre). considered rule x \<longrightarrow> ?sc x < ?sc t)
            \<and> (\<forall>x \<in> set post. considered rule x \<longrightarrow> ?sc x \<le> ?sc t)"
            by auto
          then have "?later (h # ts) i st" by blast
          moreover from n np have "?none (h # ts)" by simp
          ultimately show ?thesis by blast
        qed
      qed
    qed
  qed
qed

lemma scanTracks_first:
  assumes "scanTracks rule ok ts 0 \<lparr> bestIndex = 0, bestScore = 0, foundCues = False \<rparr> = Some r"
  shows "r < length ts \<and> considered rule (ts ! r)
         \<and> (if \<exists>t \<in> set ts. considered rule t \<and> currentScore rule ok t = perfectScore rule ok
            then currentScore rule ok (ts ! r) = perfectScore rule ok
                 \<and> (\<forall>t \<in> set (take r ts). considered rule t
                        \<longrightarrow> currentScore rule ok t \<noteq> perfectScore rule ok)
            else (\<forall>t \<in> set ts. considered rule t
                        \<longrightarrow> currentScore rule ok t \<le> currentScore rule ok (ts ! r))
                 \<and> (\<forall>t \<in> set (take r ts). considered rule t
                        \<longrightarrow> currentScore rule ok t < currentScore rule ok (ts ! r)))"
  using scanTracks_Some [OF assms]
proof (elim disjE conjE exE)
  fix pre t post
  assume "ts = pre @ t # post" "r = 0 + length pre" "considered rule t"
    "currentScore rule ok t = perfectScore rule ok"
    "\<forall>x \<in> set pre. considered rule x \<longrightarrow> currentScore rule ok x \<noteq> perfectScore rule ok"
  then show ?thesis by auto
next
  assume "foundCues \<lparr> bestIndex = 0, bestScore = 0, foundCues = False \<rparr>"
  then show ?thesis by simp
next
  fix pre t post
  assume n: "\<forall>x \<in> set ts. considered rule x \<longrightarrow> currentScore rule ok x \<noteq> perfectScore rule ok"
    and d: "ts = pre @ t # post" "r = 0 + length pre" "considered rule t"
    and b: "\<forall>x \<in> set pre. considered rule x \<longrightarrow> currentScore rule ok x < currentScore rule ok t"
    and a: "\<forall>x \<in> set post. considered rule x \<longrightarrow> currentScore rule ok x \<le> currentScore rule ok t"
  from n have "\<not> (\<exists>t \<in> set ts. considered rule t \<and> currentScore rule ok t = perfectScore rule ok)"
    by blast
  moreover from d have "r < length ts" "ts ! r = t" "take r ts = pre"
    by simp_all
  moreover from d b a
  have "\<forall>x \<in> set ts. considered rule x \<longrightarrow> currentScore rule ok x \<le> currentScore rule ok t"
    by (auto dest: less_imp_le)
  ultimately show ?thesis using d b by simp
qed

text \<open>
  What \<open>getVideoTextTrack\<close> returns, for every list of tracks and every rule. It looks
  only at tracks that have cues and, where the rule requires it, are showing, and returns
  nothing exactly when there is no such track. Otherwise it returns such a track: the
  first whose score equals the perfect score if there is one, and else the first of
  maximal score, which is the first track looked at where all scores are zero. Where the
  rule names a kind, the score of the track returned is maximal in both cases.
\<close>

lemma getVideoTextTrack_choice:
  "(getVideoTextTrackIndex tracks rule ok = None \<longleftrightarrow> (\<forall>t \<in> set tracks. \<not> considered rule t))
   \<and> (\<forall>i. getVideoTextTrackIndex tracks rule ok = Some i \<longrightarrow>
         i < length tracks \<and> considered rule (tracks ! i)
         \<and> getVideoTextTrack tracks rule ok = Some (tracks ! i)
         \<and> (if \<exists>t \<in> set tracks. considered rule t
                  \<and> currentScore rule ok t = perfectScore rule ok
            then currentScore rule ok (tracks ! i) = perfectScore rule ok
                 \<and> (\<forall>t \<in> set (take i tracks). considered rule t
                        \<longrightarrow> currentScore rule ok t \<noteq> perfectScore rule ok)
            else (\<forall>t \<in> set tracks. considered rule t
                        \<longrightarrow> currentScore rule ok t \<le> currentScore rule ok (tracks ! i))
                 \<and> (\<forall>t \<in> set (take i tracks). considered rule t
                        \<longrightarrow> currentScore rule ok t < currentScore rule ok (tracks ! i)))
         \<and> ((\<forall>t \<in> set tracks. considered rule t \<longrightarrow> currentScore rule ok t = 0)
              \<longrightarrow> (\<forall>t \<in> set (take i tracks). \<not> considered rule t))
         \<and> (truthy (videoCueKind rule)
              \<longrightarrow> (\<forall>t \<in> set tracks. considered rule t
                        \<longrightarrow> currentScore rule ok t \<le> currentScore rule ok (tracks ! i))))"
proof (intro conjI allI impI)
  show "getVideoTextTrackIndex tracks rule ok = None \<longleftrightarrow> (\<forall>t \<in> set tracks. \<not> considered rule t)"
    by (simp add: getVideoTextTrackIndex_def scanTracks_None)
next
  fix i
  assume r: "getVideoTextTrackIndex tracks rule ok = Some i"
  then have s: "scanTracks rule ok tracks 0 \<lparr> bestIndex = 0, bestScore = 0, foundCues = False \<rparr> = Some i"
    by (simp add: getVideoTextTrackIndex_def)
  note f = scanTracks_first [OF s]
  from f show "i < length tracks" by simp
  from f show "considered rule (tracks ! i)" by simp
  from r show "getVideoTextTrack tracks rule ok = Some (tracks ! i)"
    by (simp add: getVideoTextTrack_def)
  from f show "if \<exists>t \<in> set tracks. considered rule t
                  \<and> currentScore rule ok t = perfectScore rule ok
            then currentScore rule ok (tracks ! i) = perfectScore rule ok
                 \<and> (\<forall>t \<in> set (take i tracks). considered rule t
                        \<longrightarrow> currentScore rule ok t \<noteq> perfectScore rule ok)
            else (\<forall>t \<in> set tracks. considered rule t
                        \<longrightarrow> currentScore rule ok t \<le> currentScore rule ok (tracks ! i))
                 \<and> (\<forall>t \<in> set (take i tracks). considered rule t
                        \<longrightarrow> currentScore rule ok t < currentScore rule ok (tracks ! i))"
    by simp
  {
    assume z: "\<forall>t \<in> set tracks. considered rule t \<longrightarrow> currentScore rule ok t = 0"
    show "\<forall>t \<in> set (take i tracks). \<not> considered rule t"
    proof
      fix t
      assume t: "t \<in> set (take i tracks)"
      then have m: "t \<in> set tracks" by (rule in_set_takeD)
      from f have "tracks ! i \<in> set tracks" by simp
      with f z have zi: "currentScore rule ok (tracks ! i) = 0" by simp
      show "\<not> considered rule t"
      proof
        assume c: "considered rule t"
        with z m have zt: "currentScore rule ok t = 0" by simp
        show False
        proof (cases "\<exists>t \<in> set tracks. considered rule t
                  \<and> currentScore rule ok t = perfectScore rule ok")
          case True
          with f t c have "currentScore rule ok t \<noteq> perfectScore rule ok"
            and "currentScore rule ok (tracks ! i) = perfectScore rule ok"
            by simp_all
          with zi zt show False by simp
        next
          case False
          with f t c have "currentScore rule ok t < currentScore rule ok (tracks ! i)"
            by simp
          with zi show False by simp
        qed
      qed
    qed
  }
  {
    assume k: "truthy (videoCueKind rule)"
    show "\<forall>t \<in> set tracks. considered rule t
            \<longrightarrow> currentScore rule ok t \<le> currentScore rule ok (tracks ! i)"
    proof (cases "\<exists>t \<in> set tracks. considered rule t
                  \<and> currentScore rule ok t = perfectScore rule ok")
      case True
      with f have "currentScore rule ok (tracks ! i) = perfectScore rule ok" by simp
      with k show ?thesis by (simp add: currentScore_le_perfect)
    next
      case False
      with f show ?thesis by simp
    qed
  }
qed

lemmas track_eval_simps =
  getVideoTextTrackIndex_def considered_def currentScore_def perfectScore_def overrides_def
  textTrackKeyTest_def truthy_def isTrue_def track_def oneCue_def noRule_def

text \<open>
  An example where the rule names a label and a kind: the track chosen is the first with
  cues that has both, past one without cues and one of another label.
\<close>

lemma mixedTracks_index: "getVideoTextTrackIndex mixedTracks labelKindRule None = Some 2"
  by (simp add: mixedTracks_def labelKindRule_def labelRule_def track_eval_simps)

text \<open>
  C5. The track returned need not be of maximal score. The perfect score leaves the
  point for the kind out when the rule names no kind, but a track of kind \<open>captions\<close> or
  \<open>subtitles\<close> still earns that point. With a rule that names a label only, the track of
  that label and kind \<open>metadata\<close> has the perfect score 100 and is returned, although
  the track before it, of that label and kind \<open>captions\<close>, scores 101. With a rule that
  names nothing the perfect score is 0, and the first track, of kind \<open>metadata\<close> and score
  0, is returned at once, although the track after it, of kind \<open>captions\<close>, scores 1.
\<close>

theorem getVideoTextTrack_passes_over_captions:
  "considered labelRule (labelTracks ! 0) \<and> considered labelRule (labelTracks ! 1)
   \<and> perfectScore labelRule None = 100
   \<and> currentScore labelRule None (labelTracks ! 0) = 101
   \<and> currentScore labelRule None (labelTracks ! 1) = 100
   \<and> getVideoTextTrackIndex labelTracks labelRule None = Some 1
   \<and> getVideoTextTrack labelTracks labelRule None
       = Some (track ''metadata'' ''English'' ''showing'')
   \<and> considered plainRule (metadataFirstTracks ! 0)
   \<and> considered plainRule (metadataFirstTracks ! 1)
   \<and> perfectScore plainRule None = 0
   \<and> currentScore plainRule None (metadataFirstTracks ! 0) = 0
   \<and> currentScore plainRule None (metadataFirstTracks ! 1) = 1
   \<and> getVideoTextTrackIndex metadataFirstTracks plainRule None = Some 0
   \<and> getVideoTextTrack metadataFirstTracks plainRule None
       = Some (track ''metadata'' ''English'' ''showing'')"
  by (simp add: labelTracks_def labelRule_def metadataFirstTracks_def plainRule_def
      getVideoTextTrack_def track_eval_simps)

section \<open>Properties of the classification of cues\<close>

lemma classifyCue_classified:
  "filtered c \<noteq> None \<Longrightarrow> classifyCue flt rule c f = (c, f)"
  by (simp add: classifyCue_def)

lemma classifyCue_new:
  assumes "filtered c = None"
  shows "filtered (fst (classifyCue flt rule c f)) = Some (resultModified (fst (flt f (text' c))))"
    and "originalText (fst (classifyCue flt rule c f)) = Some (text' c)"
    and "filteredText (fst (classifyCue flt rule c f)) = Some (resultFiltered (fst (flt f (text' c))))"
  using assms
  by (simp_all add: classifyCue_def Let_def split: option.splits prod.splits)

lemma classifyCue_filtered: "filtered (fst (classifyCue flt rule c f)) \<noteq> None"
  by (cases "filtered c = None") (simp_all add: classifyCue_new classifyCue_classified)

lemma processCues_Cons:
  "fst (processCues flt rule (c # cs) f) =
     fst (classifyCue flt rule c f)
       # fst (processCues flt rule cs (snd (classifyCue flt rule c f)))"
  by (simp add: Let_def split: prod.splits)

lemma processCues_length: "length (fst (processCues flt rule cs f)) = length cs"
  by (induction cs arbitrary: f) (simp_all add: processCues_Cons del: processCues.simps(2))

lemma processCues_all_classified:
  "\<forall>c \<in> set (fst (processCues flt rule cs f)). filtered c \<noteq> None"
  by (induction cs arbitrary: f)
     (simp_all add: processCues_Cons classifyCue_filtered
        del: processCues.simps(2) not_None_eq)

lemma processCues_skips:
  "\<forall>c \<in> set cs. filtered c \<noteq> None \<Longrightarrow> processCues flt rule cs f = (cs, f)"
  by (induction cs arbitrary: f) (simp_all add: classifyCue_classified)

lemma processCues_nth:
  "i < length cs \<Longrightarrow>
   (filtered (cs ! i) \<noteq> None \<longrightarrow> fst (processCues flt rule cs f) ! i = cs ! i)
   \<and> (filtered (cs ! i) = None \<longrightarrow>
        filtered (fst (processCues flt rule cs f) ! i) \<noteq> None
        \<and> originalText (fst (processCues flt rule cs f) ! i) = Some (text' (cs ! i))
        \<and> filteredText (fst (processCues flt rule cs f) ! i) \<noteq> None)"
proof (induction cs arbitrary: i f)
  case Nil
  then show ?case by simp
next
  case (Cons c cs)
  show ?case
  proof (cases i)
    case 0
    then show ?thesis
      by (simp add: processCues_Cons classifyCue_classified classifyCue_new
          del: processCues.simps(2))
  next
    case (Suc j)
    with Cons.prems have "j < length cs" by simp
    from Cons.IH [OF this] Suc show ?thesis
      by (simp add: processCues_Cons del: processCues.simps(2))
  qed
qed

text \<open>
  C6. \<open>processCues\<close> leaves every cue that has the property \<open>filtered\<close> as it is, and
  sets \<open>filtered\<close>, \<open>originalText\<close> and \<open>filteredText\<close> on every other cue. Running it
  again on the result changes no cue and does not call the filter, whatever the state of
  the filter is by then.
\<close>

theorem processCues_once:
  "length (fst (processCues flt rule cs f)) = length cs
   \<and> (\<forall>i < length cs. filtered (cs ! i) \<noteq> None \<longrightarrow> fst (processCues flt rule cs f) ! i = cs ! i)
   \<and> (\<forall>i < length cs. filtered (cs ! i) = None \<longrightarrow>
         filtered (fst (processCues flt rule cs f) ! i) \<noteq> None
         \<and> originalText (fst (processCues flt rule cs f) ! i) = Some (text' (cs ! i))
         \<and> filteredText (fst (processCues flt rule cs f) ! i) \<noteq> None)
   \<and> processCues flt rule (fst (processCues flt rule cs f)) f'
       = (fst (processCues flt rule cs f), f')"
  by (simp add: processCues_length processCues_nth processCues_skips processCues_all_classified)

lemma processCues_twoCues:
  "processCues wordFilter cueRule twoCues 0 =
     ([\<lparr> startTime = 1, endTime = 2, text' = ''****'', filtered = Some True,
         filteredText = Some ''****'', originalText = Some ''damn'' \<rparr>,
       \<lparr> startTime = 3, endTime = 4, text' = ''fine'', filtered = Some False,
         filteredText = None, originalText = None \<rparr>], 1)"
  by (simp add: twoCues_def cueRule_def noRule_def wordFilter_def classifyCue_def VTTCue_def
      isTrue_def Let_def)

theorem processCues_once_witness:
  "filtered (twoCues ! 0) = None \<and> filtered (twoCues ! 1) \<noteq> None
   \<and> fst (processCues wordFilter cueRule twoCues 0) ! 1 = twoCues ! 1
   \<and> filtered (fst (processCues wordFilter cueRule twoCues 0) ! 0) = Some True
   \<and> originalText (fst (processCues wordFilter cueRule twoCues 0) ! 0) = Some ''damn''
   \<and> processCues wordFilter cueRule (fst (processCues wordFilter cueRule twoCues 0)) 1
       = (fst (processCues wordFilter cueRule twoCues 0), 1)"
proof -
  have h: "filtered (twoCues ! 0) = None" "filtered (twoCues ! 1) \<noteq> None" "length twoCues = 2"
    "text' (twoCues ! 0) = ''damn''"
    by (simp_all add: twoCues_def VTTCue_def)
  have v: "filtered (fst (processCues wordFilter cueRule twoCues 0) ! 0) = Some True"
    by (simp add: processCues_twoCues)
  from processCues_once [of wordFilter cueRule twoCues 0 1] h
  have "fst (processCues wordFilter cueRule twoCues 0) ! 1 = twoCues ! 1"
    and "originalText (fst (processCues wordFilter cueRule twoCues 0) ! 0) = Some ''damn''"
    and "processCues wordFilter cueRule (fst (processCues wordFilter cueRule twoCues 0)) 1
           = (fst (processCues wordFilter cueRule twoCues 0), 1)"
    by auto
  with h v show ?thesis by simp
qed

section \<open>Properties of the node matcher\<close>

lemma visitRule_ordinary:
  assumes "0 \<le> r" and "r < int (length (rules s))"
    and "\<not> (mode (rules s ! nat r) = Some ''dynamic'' \<and> triggers n (rules s ! nat r))"
  shows "visitRule d n r s = Inr (accepts d s n (rules s ! nat r), s)"
  using assms
  by (auto simp: visitRule_def supportedDynamicNode_def accepts_def Let_def)

text \<open>
  While no rule accepts the node, a scan without a trigger leaves the engine as it is,
  so the loop from position \<open>i\<close> returns for what is left of the list.
\<close>

lemma supportedLoop_ordinary:
  assumes "\<forall>r \<in> set (take (Suc (length (takeWhile (\<lambda>r. \<not> accepts d s n (rules s ! nat r))
                                               (drop i (enabledRuleIds s)))))
                        (drop i (enabledRuleIds s))).
             0 \<le> r \<and> r < int (length (rules s))
             \<and> \<not> (mode (rules s ! nat r) = Some ''dynamic'' \<and> triggers n (rules s ! nat r))"
  shows "supportedLoop d n i s =
           Some (Inr (case find (\<lambda>r. accepts d s n (rules s ! nat r)) (drop i (enabledRuleIds s)) of
                        None \<Rightarrow> (NotFound, s)
                      | Some r \<Rightarrow> (RuleId r, supportedCaptionsFound True False s)))"
  using assms
proof (induction "length (enabledRuleIds s) - i" arbitrary: i)
  case 0
  then have "\<not> i < length (enabledRuleIds s)" by simp
  then show ?case
    by (subst supportedLoop.simps) simp
next
  case (Suc k)
  then have i: "i < length (enabledRuleIds s)" and k: "k = length (enabledRuleIds s) - Suc i"
    by simp_all
  let ?r = "enabledRuleIds s ! i"
  let ?A = "\<lambda>r. accepts d s n (rules s ! nat r)"
  from i have d: "drop i (enabledRuleIds s) = ?r # drop (Suc i) (enabledRuleIds s)"
    by (simp add: Cons_nth_drop_Suc)
  from Suc.prems have "0 \<le> ?r" "?r < int (length (rules s))"
    "\<not> (mode (rules s ! nat ?r) = Some ''dynamic'' \<and> triggers n (rules s ! nat ?r))"
    unfolding d by simp_all
  then have v: "visitRule d n ?r s = Inr (?A ?r, s)"
    by (rule visitRule_ordinary)
  show ?case
  proof (cases "?A ?r")
    case True
    with i v show ?thesis
      by (subst supportedLoop.simps) (simp add: d)
  next
    case False
    with Suc.prems
    have "\<forall>r \<in> set (take (Suc (length (takeWhile (\<lambda>r. \<not> ?A r) (drop (Suc i) (enabledRuleIds s)))))
                          (drop (Suc i) (enabledRuleIds s))).
            0 \<le> r \<and> r < int (length (rules s))
            \<and> \<not> (mode (rules s ! nat r) = Some ''dynamic'' \<and> triggers n (rules s ! nat r))"
      unfolding d by simp
    from Suc.hyps(1) [OF k this] False i v show ?thesis
      by (subst supportedLoop.simps) (simp add: d)
  qed
qed

text \<open>
  Where the scan is ordinary, \<open>supportedNode\<close> does what its comment says: it returns the
  id of the first enabled rule whose predicate accepts the node, after telling that
  captions were found, or \<open>false\<close>, with the engine as it was, where no enabled rule
  accepts it. Where rule 0 is the one, the result is the number 0, which is not \<open>false\<close>
  and yet, used as a condition, holds as little as \<open>false\<close> does.
\<close>

lemma supportedNode_ordinary:
  assumes "ordinary d s n"
  shows "supportedNode d n s =
           Some (Inr (case firstAccepting d s n of
                        None \<Rightarrow> (NotFound, s)
                      | Some r \<Rightarrow> (RuleId r, supportedCaptionsFound True False s)))"
    and "firstAccepting d s n = Some 0 \<Longrightarrow>
           supportedNode d n s = Some (Inr (RuleId 0, supportedCaptionsFound True False s))
           \<and> RuleId 0 \<noteq> NotFound \<and> holds (RuleId 0) = holds NotFound"
proof -
  from assms show a: "supportedNode d n s =
           Some (Inr (case firstAccepting d s n of
                        None \<Rightarrow> (NotFound, s)
                      | Some r \<Rightarrow> (RuleId r, supportedCaptionsFound True False s)))"
    using supportedLoop_ordinary [of d s n 0]
    by (simp add: supportedNode_def firstAccepting_def ordinary_def scanned_def)
  assume "firstAccepting d s n = Some 0"
  with a show "supportedNode d n s = Some (Inr (RuleId 0, supportedCaptionsFound True False s))
           \<and> RuleId 0 \<noteq> NotFound \<and> holds (RuleId 0) = holds NotFound"
    by simp
qed

lemma watcherEngine_firstAccepting: "firstAccepting captionDom watcherEngine captionText = Some 0"
  by (simp add: firstAccepting_def accepts_def supportedWatcherNode_def watcherEngine_def
      watcherRule_def idleEngine_def noRule_def captionDom_def captionText_def)

lemma watcherEngine_ordinary: "ordinary captionDom watcherEngine captionText"
  by (simp add: ordinary_def scanned_def watcherEngine_def watcherRule_def idleEngine_def)

lemma supportedNode_first_rule:
  "supportedNode captionDom captionText watcherEngine
     = Some (Inr (RuleId 0, supportedCaptionsFound True False watcherEngine))
   \<and> \<not> holds (RuleId 0) \<and> \<not> holds NotFound"
  using supportedNode_ordinary(2) [OF watcherEngine_ordinary watcherEngine_firstAccepting]
  by simp

text \<open>
  A scan that is not ordinary: the node triggers the rule of mode \<open>dynamic\<close> at rule 0.
  The rule takes the mode \<open>watcher\<close> and is initialised again, which appends its id
  to the enabled rules while the loop runs; the loop then meets the id a second time and
  the rule, now a watcher, accepts the node.
\<close>

lemma supportedNode_dynamic_trigger:
  "(case supportedNode captionDom loadingElement targetEngine of
      Some (Inr (r, s)) \<Rightarrow>
        r = RuleId 0 \<and> enabledRuleIds s = [0, 0]
        \<and> map mode (rules s) = [Some ''watcher'']
        \<and> map parentSelectorAll (rules s) = [Some ''div.a.b undefined'']
    | _ \<Rightarrow> False)"
  unfolding supportedNode_def
  by (subst supportedLoop.simps,
      simp add: targetEngine_def idleEngine_def targetRule_def loadingElement_def
        visitRule_def supportedDynamicNode_def triggers_def noRule_def initRule_def
        inapplicable_def isDisabled_def isTrue_def initMode_def ruleDefaults_def
        initDisplaySelector_def orDefault_def initWatcherRule_def enableRule_def Let_def
        toLowerCase_def toLowerChar_def joinWith_def truthy_def,
      subst supportedLoop.simps,
      simp add: visitRule_def accepts_def supportedWatcherNode_def captionDom_def
        supportedCaptionsFound_def)

text \<open>
  The loop need not end. Where the target mode of the triggered rule is \<open>dynamic\<close>
  itself, every turn of the loop appends the id of the rule once more, and the loop
  never reaches the end of the list: no result is returned.
\<close>

lemma ruleDefaults_keeps:
  "mode (ruleDefaults s r) = mode r"
  "dynamicTargetMode (ruleDefaults s r) = dynamicTargetMode r"
  "dynamicTextKey (ruleDefaults s r) = dynamicTextKey r"
  "iframe (ruleDefaults s r) = iframe r"
  "disabled (ruleDefaults s r) = disabled r"
  by (simp_all add: ruleDefaults_def initDisplaySelector_def Let_def split: option.splits)

lemma looping_step:
  assumes "looping n i s"
  shows "\<exists>s1. visitRule d n (enabledRuleIds s ! i) s = Inr (False, s1) \<and> looping n (Suc i) s1"
proof -
  from assms have i: "i < length (enabledRuleIds s)" and z: "enabledRuleIds s ! i = 0"
    and ne: "rules s \<noteq> []"
    and m: "mode (rules s ! 0) = Some ''dynamic''"
    and t: "dynamicTargetMode (rules s ! 0) = Some ''dynamic''"
    and g: "triggers n (rules s ! 0)"
    and e: "asElement n \<noteq> None"
    and f: "iframe (rules s ! 0) = None"
    and nd: "\<not> isDisabled (rules s ! 0)"
    and all: "\<forall>j. i \<le> j \<and> j < length (enabledRuleIds s) \<longrightarrow> enabledRuleIds s ! j = 0"
    by (simp_all add: looping_def)
  obtain el where el: "asElement n = Some el" using e by auto
  define r1 where "r1 = (rules s ! 0)\<lparr> mode := dynamicTargetMode (rules s ! 0),
      parentSelectorAll := Some (toLowerCase (elTagName el) @ ''.''
        @ joinWith ''.'' (classList el) @ '' ''
        @ (case parentSelectorAll (rules s ! 0) of None \<Rightarrow> ''undefined'' | Some p \<Rightarrow> p)) \<rparr>"
  have r1: "mode r1 = Some ''dynamic''" "\<not> inapplicable s r1" "\<not> isDisabled r1"
    "dynamicTargetMode r1 = Some ''dynamic''" "dynamicTextKey r1 = dynamicTextKey (rules s ! 0)"
    "iframe r1 = None"
    using m t f nd by (simp_all add: r1_def inapplicable_def isDisabled_def)
  define r2 where "r2 = (ruleDefaults s r1)\<lparr> dynamic' := Some True \<rparr>"
  have im: "initMode 0 (ruleDefaults s r1) s = (r2, s)"
    using r1 by (simp add: initMode_def initDynamicRule_def ruleDefaults_keeps r2_def)
  have r2: "mode r2 = Some ''dynamic''" "\<not> isDisabled r2"
    "dynamicTargetMode r2 = Some ''dynamic''" "dynamicTextKey r2 = dynamicTextKey (rules s ! 0)"
    "iframe r2 = None"
    using r1 by (simp_all add: r2_def ruleDefaults_keeps isDisabled_def)
  have ir: "initRule 0 r1 s = (r2, enableRule 0 r2 s)"
    using r1 r2 by (simp add: initRule_def im)
  define s1 where "s1 = (enableRule 0 r2 s)\<lparr> rules := (rules (enableRule 0 r2 s))[0 := r2] \<rparr>"
  have "supportedDynamicNode n 0 s =
          (let (r2', s1') = initRule 0 r1 s in Inr (s1'\<lparr> rules := (rules s1')[0 := r2'] \<rparr>))"
    unfolding supportedDynamicNode_def r1_def using g el by (simp add: Let_def)
  then have sd: "supportedDynamicNode n 0 s = Inr s1"
    by (simp add: ir s1_def)
  have v: "visitRule d n (enabledRuleIds s ! i) s = Inr (False, s1)"
    using ne m by (simp add: z visitRule_def sd)
  have en: "enabledRuleIds s1 = enabledRuleIds s @ [0]" "rules s1 = (rules s)[0 := r2]"
    by (simp_all add: s1_def enableRule_def Let_def)
  have g2: "triggers n r2"
    using g unfolding triggers_def r2(4) by assumption
  have "looping n (Suc i) s1"
    unfolding looping_def
    using i all ne r2 g2 e by (auto simp: en nth_append)
  with v show ?thesis by blast
qed

lemma looping_diverges:
  assumes "supportedLoop d n i s = Some y"
  shows "\<not> looping n i s"
proof (rule supportedLoop.raw_induct [where P = "\<lambda>d n i s y. \<not> looping n i s", OF _ assms])
  fix loop :: "dom \<Rightarrow> node \<Rightarrow> nat \<Rightarrow> engine \<Rightarrow> (error \<times> engine + found \<times> engine) option"
    and d n i s y
  assume ih: "\<And>d n i s y. loop d n i s = Some y \<Longrightarrow> \<not> looping n i s"
    and body: "(if i < length (enabledRuleIds s) then
        (case visitRule d n (enabledRuleIds s ! i) s of
           Inl err \<Rightarrow> Some (Inl err)
         | Inr (supported, s1) \<Rightarrow>
             (if supported
              then Some (Inr (RuleId (enabledRuleIds s ! i), supportedCaptionsFound True False s1))
              else loop d n (Suc i) s1))
      else Some (Inr (NotFound, s))) = Some y"
  show "\<not> looping n i s"
  proof
    assume l: "looping n i s"
    then have i: "i < length (enabledRuleIds s)" by (simp add: looping_def)
    from looping_step [OF l, of d] obtain s1
      where v: "visitRule d n (enabledRuleIds s ! i) s = Inr (False, s1)"
        and l1: "looping n (Suc i) s1"
      by blast
    from body i v have "loop d n (Suc i) s1 = Some y" by simp
    from ih [OF this] l1 show False by simp
  qed
qed

lemma selfEngine_looping: "looping loadingElement 0 selfEngine"
  by (simp add: looping_def selfEngine_def selfRule_def targetEngine_def targetRule_def
      idleEngine_def noRule_def loadingElement_def triggers_def isDisabled_def isTrue_def)

lemma supportedNode_self_target: "supportedNode captionDom loadingElement selfEngine = None"
proof (cases "supportedNode captionDom loadingElement selfEngine")
  case None
  then show ?thesis .
next
  case (Some y)
  then have "supportedLoop captionDom loadingElement 0 selfEngine = Some y"
    by (simp add: supportedNode_def)
  from looping_diverges [OF this] selfEngine_looping show ?thesis
    by simp
qed

lemma supportedNode_text_trigger:
  "supportedNode captionDom loadingText targetEngine
     = Some (Inl (TypeError ''tagName'',
                  targetEngine\<lparr> rules := [targetRule\<lparr> mode := Some ''watcher'' \<rparr>] \<rparr>))"
  unfolding supportedNode_def
  by (subst supportedLoop.simps,
      simp add: targetEngine_def idleEngine_def targetRule_def loadingText_def visitRule_def
        supportedDynamicNode_def triggers_def noRule_def Let_def)

text \<open>
  C10. \<open>supportedNode\<close> does not always return a rule id or \<open>false\<close>. The one enabled
  rule is of mode \<open>dynamic\<close>, so no predicate accepts the node and \<open>false\<close> is due. For
  the text node that carries the trigger text the scan throws instead, because
  \<open>supportedDynamicNode\<close> reads the tag name of the node, and it leaves the rule with
  the mode \<open>watcher\<close>, not initialised. For the element and the rule that is its own
  target mode the scan does not return.
\<close>

theorem supportedNode_without_result:
  "firstAccepting captionDom targetEngine loadingText = None
   \<and> supportedNode captionDom loadingText targetEngine
       = Some (Inl (TypeError ''tagName'',
                    targetEngine\<lparr> rules := [targetRule\<lparr> mode := Some ''watcher'' \<rparr>] \<rparr>))
   \<and> firstAccepting captionDom selfEngine loadingElement = None
   \<and> supportedNode captionDom loadingElement selfEngine = None"
proof -
  have "firstAccepting captionDom targetEngine loadingText = None"
    by (simp add: firstAccepting_def accepts_def targetEngine_def targetRule_def)
  moreover have "firstAccepting captionDom selfEngine loadingElement = None"
    by (simp add: firstAccepting_def accepts_def selfEngine_def selfRule_def targetEngine_def
        targetRule_def)
  ultimately show ?thesis
    by (simp add: supportedNode_text_trigger supportedNode_self_target)
qed

end
